theory Spec2Isabelle
  imports Main "HOL-Library.AList"
begin

section \<open>The file system seen by the tool executors\<close>

text \<open>
  \<^verbatim>\<open>read_file\<close> and \<^verbatim>\<open>write_file\<close> of \<^verbatim>\<open>backend/main.py\<close> call
  \<^verbatim>\<open>os.path.exists\<close>, \<^verbatim>\<open>os.path.dirname\<close>, \<^verbatim>\<open>os.makedirs\<close> and \<^verbatim>\<open>open\<close>.
  The file system is a tree of directories and regular files, addressed by the list of
  path components from the root, together with the working directory of the process.
  Path lookup is the POSIX one: every component but the last must be an existing
  directory, empty components and \<^verbatim>\<open>.\<close> stay in place, \<^verbatim>\<open>..\<close> goes up, the empty path
  names nothing. Permissions, symbolic links, device errors and text encodings are not
  part of the model (text is a \<^typ>\<open>string\<close>).
\<close>

datatype node = Dir | File string

datatype errno = ENOENT | EEXIST | ENOTDIR | EISDIR

text \<open>An \<^verbatim>\<open>OSError\<close>: its \<^verbatim>\<open>errno\<close> and the file name it carries.\<close>

datatype oserror = OSError errno string

record filesystem =
  tree :: "string list \<Rightarrow> node option"
  cwd :: "string list"

text \<open>\<^verbatim>\<open>str.split(sep)\<close> for a one-character separator.\<close>

fun split_sep :: "char \<Rightarrow> string \<Rightarrow> string list" where
  "split_sep c [] = [[]]"
| "split_sep c (x # xs) =
     (if x = c then [] # split_sep c xs
      else (case split_sep c xs of
              [] \<Rightarrow> [[x]]
            | y # ys \<Rightarrow> (x # y) # ys))"

fun walk :: "(string list \<Rightarrow> node option) \<Rightarrow> string list \<Rightarrow> string list \<Rightarrow> errno + string list" where
  "walk t cur [] = Inr cur"
| "walk t cur (c # cs) =
     (case t cur of
        None \<Rightarrow> Inl ENOENT
      | Some (File _) \<Rightarrow> Inl ENOTDIR
      | Some Dir \<Rightarrow>
          walk t (if c = [] \<or> c = ''.'' then cur
                  else if c = ''..'' then butlast cur
                  else cur @ [c]) cs)"

definition resolve :: "filesystem \<Rightarrow> string \<Rightarrow> errno + string list" where
  "resolve fs p =
     (if p = [] then Inl ENOENT
      else walk (tree fs) (if hd p = CHR ''/'' then [] else cwd fs) (split_sep CHR ''/'' p))"

text \<open>\<^verbatim>\<open>os.path.exists\<close> and \<^verbatim>\<open>os.path.isdir\<close>: false when the lookup fails.\<close>

definition path_exists :: "filesystem \<Rightarrow> string \<Rightarrow> bool" where
  "path_exists fs p =
     (case resolve fs p of Inl _ \<Rightarrow> False | Inr k \<Rightarrow> tree fs k \<noteq> None)"

definition isdir :: "filesystem \<Rightarrow> string \<Rightarrow> bool" where
  "isdir fs p =
     (case resolve fs p of Inl _ \<Rightarrow> False | Inr k \<Rightarrow> tree fs k = Some Dir)"

text \<open>\<^verbatim>\<open>os.mkdir(name)\<close>.\<close>

definition mkdir :: "filesystem \<Rightarrow> string \<Rightarrow> oserror + filesystem" where
  "mkdir fs name =
     (case resolve fs name of
        Inl e \<Rightarrow> Inl (OSError e name)
      | Inr k \<Rightarrow>
          (if tree fs k \<noteq> None then Inl (OSError EEXIST name)
           else Inr (fs\<lparr>tree := (tree fs)(k \<mapsto> Dir)\<rparr>)))"

text \<open>
  \<^verbatim>\<open>posixpath.split\<close>: the head is everything up to the last slash, with its trailing
  slashes removed unless it consists of slashes only; the tail is the rest.
  \<^verbatim>\<open>posixpath.dirname\<close> computes the same head.
\<close>

definition path_split :: "string \<Rightarrow> string \<times> string" where
  "path_split p =
     (let tail = rev (takeWhile (\<lambda>c. c \<noteq> CHR ''/'') (rev p));
          head = take (length p - length tail) p;
          head' = (if head \<noteq> [] \<and> (\<exists>c \<in> set head. c \<noteq> CHR ''/'')
                   then rev (dropWhile (\<lambda>c. c = CHR ''/'') (rev head))
                   else head)
      in (head', tail))"

definition dirname :: "string \<Rightarrow> string" where
  "dirname p = fst (path_split p)"

lemma path_split_length:
  "length (fst (path_split p)) + length (snd (path_split p)) \<le> length p"
proof -
  let ?tail = "rev (takeWhile (\<lambda>c. c \<noteq> CHR ''/'') (rev p))"
  let ?head = "take (length p - length ?tail) p"
  have t: "length ?tail \<le> length p"
    using length_takeWhile_le [of "\<lambda>c. c \<noteq> CHR ''/''" "rev p"] by simp
  have d: "length (rev (dropWhile (\<lambda>c. c = CHR ''/'') (rev ?head))) \<le> length ?head"
    using length_dropWhile_le [of "\<lambda>c. c = CHR ''/''" "rev ?head"] by simp
  have h: "length ?head + length ?tail \<le> length p"
    using t by simp
  show ?thesis
    using h d unfolding path_split_def Let_def
    by (simp split: if_splits)
qed

lemma path_split_head_shorter:
  "snd (path_split p) \<noteq> [] \<Longrightarrow> length (fst (path_split p)) < length p"
  using path_split_length [of p] by (cases "snd (path_split p)") auto

text \<open>
  \<^verbatim>\<open>os.makedirs(name, exist_ok=True)\<close>, after CPython's \<^verbatim>\<open>os.py\<close>: create the
  parent first when it is missing (a \<^verbatim>\<open>FileExistsError\<close> of that recursive call is
  passed over), then \<^verbatim>\<open>mkdir(name)\<close>, whose error is re-raised unless \<^verbatim>\<open>name\<close> is a
  directory. The result is the exception raised, if any, and the file system as it is
  then: directories created before the error stay.
\<close>

function makedirs :: "filesystem \<Rightarrow> string \<Rightarrow> oserror option \<times> filesystem" where
  "makedirs fs name =
     (let (head0, tail0) = path_split name;
          (head, tail) = (if tail0 = [] then path_split head0 else (head0, tail0))
      in if head \<noteq> [] \<and> tail \<noteq> [] \<and> \<not> path_exists fs head then
           (case makedirs fs head of
              (Some (OSError e f), fs1) \<Rightarrow>
                (if e = EEXIST then
                   (if tail = ''.'' then (None, fs1)
                    else (case mkdir fs1 name of
                            Inr fs2 \<Rightarrow> (None, fs2)
                          | Inl err \<Rightarrow> (if isdir fs1 name then (None, fs1) else (Some err, fs1))))
                 else (Some (OSError e f), fs1))
            | (None, fs1) \<Rightarrow>
                (if tail = ''.'' then (None, fs1)
                 else (case mkdir fs1 name of
                         Inr fs2 \<Rightarrow> (None, fs2)
                       | Inl err \<Rightarrow> (if isdir fs1 name then (None, fs1) else (Some err, fs1)))))
         else
           (case mkdir fs name of
              Inr fs2 \<Rightarrow> (None, fs2)
            | Inl err \<Rightarrow> (if isdir fs name then (None, fs) else (Some err, fs))))"
  by pat_completeness auto
termination
proof (relation "measure (\<lambda>(fs, name). length name)", goal_cases)
  case 1
  show ?case by simp
next
  case (2 fs name x head0 tail0 xa head tail)
  from 2 have h0: "head0 = fst (path_split name)" and t0: "tail0 = snd (path_split name)"
    by (metis fst_conv, metis snd_conv)
  from 2 have ne: "tail \<noteq> []" by simp
  have "length head < length name"
  proof (cases "tail0 = []")
    case True
    with 2 have "head = fst (path_split head0)" "tail = snd (path_split head0)"
      by (metis fst_conv, metis snd_conv)
    with ne have "length head < length head0"
      using path_split_head_shorter [of head0] by simp
    moreover have "length head0 \<le> length name"
      using path_split_length [of name] h0 by simp
    ultimately show ?thesis by simp
  next
    case False
    with 2 have "head = head0" "tail = tail0"
      by (metis fst_conv, metis snd_conv)
    with h0 t0 ne show ?thesis
      using path_split_head_shorter [of name] by simp
  qed
  then show ?case by simp
qed

declare makedirs.simps [simp del]

text \<open>
  \<^verbatim>\<open>open(path, "w")\<close> followed by \<^verbatim>\<open>f.write(content)\<close>: the file is created or
  replaced; a directory cannot be opened for writing.
\<close>

definition open_write :: "filesystem \<Rightarrow> string \<Rightarrow> string \<Rightarrow> oserror + filesystem" where
  "open_write fs path content =
     (case resolve fs path of
        Inl e \<Rightarrow> Inl (OSError e path)
      | Inr k \<Rightarrow>
          (case tree fs k of
             Some Dir \<Rightarrow> Inl (OSError EISDIR path)
           | _ \<Rightarrow> Inr (fs\<lparr>tree := (tree fs)(k \<mapsto> File content)\<rparr>)))"

text \<open>
  Reading in text mode translates line endings (\<^verbatim>\<open>newline=None\<close>): \<^verbatim>\<open>\r\n\<close> and a lone
  \<^verbatim>\<open>\r\<close> are read as \<^verbatim>\<open>\n\<close>.
\<close>

fun universal_newlines :: "string \<Rightarrow> string" where
  "universal_newlines [] = []"
| "universal_newlines [c] = (if c = CHR 0x0D then [CHR 0x0A] else [c])"
| "universal_newlines (c # d # cs) =
     (if c = CHR 0x0D \<and> d = CHR 0x0A then CHR 0x0A # universal_newlines cs
      else if c = CHR 0x0D then CHR 0x0A # universal_newlines (d # cs)
      else c # universal_newlines (d # cs))"

definition open_read :: "filesystem \<Rightarrow> string \<Rightarrow> oserror + string" where
  "open_read fs path =
     (case resolve fs path of
        Inl e \<Rightarrow> Inl (OSError e path)
      | Inr k \<Rightarrow>
          (case tree fs k of
             None \<Rightarrow> Inl (OSError ENOENT path)
           | Some Dir \<Rightarrow> Inl (OSError EISDIR path)
           | Some (File c) \<Rightarrow> Inr (universal_newlines c)))"

text \<open>
  \<^verbatim>\<open>str(e)\<close> of an \<^verbatim>\<open>OSError\<close>: \<^verbatim>\<open>[Errno 2] No such file or directory: 'name'\<close>. The file
  name is shown between single quotes (Python's \<^verbatim>\<open>repr\<close> of a name without quotes,
  backslashes or control characters).
\<close>

definition quoted :: "string \<Rightarrow> string" where
  "quoted s = [CHR 0x27] @ s @ [CHR 0x27]"

fun strerror :: "errno \<Rightarrow> string" where
  "strerror ENOENT = ''[Errno 2] No such file or directory''"
| "strerror EEXIST = ''[Errno 17] File exists''"
| "strerror ENOTDIR = ''[Errno 20] Not a directory''"
| "strerror EISDIR = ''[Errno 21] Is a directory''"

fun str_oserror :: "oserror \<Rightarrow> string" where
  "str_oserror (OSError e name) = strerror e @ '': '' @ quoted name"

section \<open>Tools implementation\<close>

text \<open>
  \<^verbatim>\<open>read_file\<close> (lines 38 to 45) and \<^verbatim>\<open>write_file\<close> (lines 47 to 54). Both catch every
  exception and return its text; \<^verbatim>\<open>write_file\<close> also changes the file system.
\<close>

definition read_file :: "filesystem \<Rightarrow> string \<Rightarrow> string" where
  "read_file fs path =
     (if \<not> path_exists fs path then ''Error: File '' @ quoted path @ '' not found.''
      else (case open_read fs path of
              Inr text \<Rightarrow> text
            | Inl e \<Rightarrow> ''Error reading file: '' @ str_oserror e))"

definition write_file :: "filesystem \<Rightarrow> string \<Rightarrow> string \<Rightarrow> string \<times> filesystem" where
  "write_file fs path content =
     (case makedirs fs (dirname path) of
        (Some e, fs1) \<Rightarrow> (''Error writing file: '' @ str_oserror e, fs1)
      | (None, fs1) \<Rightarrow>
          (case open_write fs1 path content of
             Inl e \<Rightarrow> (''Error writing file: '' @ str_oserror e, fs1)
           | Inr fs2 \<Rightarrow> (''Successfully wrote to '' @ path, fs2)))"

text \<open>
  The arguments of a tool call are JSON text, decoded by \<^verbatim>\<open>json.loads\<close> into a Python
  value. An object is the list of the items of the dictionary it becomes (one item per
  key); a number keeps its literal.
\<close>

datatype json =
    JObject "(string \<times> json) list"
  | JArray "json list"
  | JString string
  | JNumber string
  | JBool bool
  | JNull

text \<open>What \<^verbatim>\<open>subprocess.run(..., capture_output=True, timeout=15)\<close> does.\<close>

datatype proc_result =
    Completed string string
  | TimeoutExpired
  | ProcException string

record search_result =
  title :: string
  href :: string
  body :: string

datatype content_part = TextPart string | ImageUrl string

record tool_call_request =
  tcr_id :: "string option"
  tcr_name :: "string option"
  tcr_arguments :: string

text \<open>The dictionaries appended to \<^verbatim>\<open>self.messages\<close>, by role and shape.\<close>

datatype message =
    SystemMessage string
  | UserMessage string
  | UserParts "content_part list"
  | AssistantMessage string
  | AssistantToolCalls "string option" "tool_call_request list"
  | ToolMessage "string option" string

record tool_definition =
  td_name :: string
  td_description :: string
  td_properties :: "(string \<times> string \<times> string option) list"
  td_required :: "string list"

text \<open>The dictionaries passed to \<^verbatim>\<open>websocket.send_json\<close>, by their \<^verbatim>\<open>type\<close> and keys.\<close>

datatype event =
    Thought "string option" string
  | Command string json string
  | FileReadStart string json
  | FileReadResult string json nat string
  | FileWriteStart string json string
  | FileWriteResult string json string
  | FileContent "string option" string

text \<open>
  The effects of a session in program order: an event sent to the client, a message
  appended to the transcript, the transcript assigned, a streamed completion requested
  (with the \<^verbatim>\<open>messages\<close> and \<^verbatim>\<open>tools\<close> it was given), a tool executor called (with its
  actual arguments).
\<close>

datatype effect =
    Sent event
  | Appended message
  | Assigned "message list"
  | Requested "message list" "tool_definition list option"
  | Executed string "json list"

text \<open>
  An \<^verbatim>\<open>AgentSession\<close> (\<^verbatim>\<open>messages\<close>, \<^verbatim>\<open>mode\<close>), the file system of the process and the
  effects so far.
\<close>

record state =
  messages :: "message list"
  mode :: string
  files :: filesystem
  history :: "effect list"

text \<open>One element of \<^verbatim>\<open>delta.tool_calls\<close>: \<^verbatim>\<open>tc.index\<close>, \<^verbatim>\<open>tc.id\<close>,
  \<^verbatim>\<open>tc.function.name\<close>, \<^verbatim>\<open>tc.function.arguments\<close>.\<close>

record fragment =
  tc_index :: int
  tc_id :: "string option"
  fn_name :: "string option"
  fn_arguments :: "string option"

text \<open>A streamed chunk, by the \<^verbatim>\<open>delta\<close> of its first choice.\<close>

record chunk =
  delta_content :: "string option"
  delta_tool_calls :: "fragment list option"

text \<open>An entry of the \<^verbatim>\<open>tool_calls\<close> dictionary of a round: \<^verbatim>\<open>id\<close>, \<^verbatim>\<open>name\<close>, \<^verbatim>\<open>args\<close>.\<close>

record tool_call =
  call_id :: "string option"
  call_name :: "string option"
  call_args :: string

text \<open>The dictionary itself, in insertion order, keyed by the index.\<close>

type_synonym tool_calls = "(int \<times> tool_call) list"

text \<open>
  Everything outside the program. Each call is given the number of effects so far, so
  that two calls with the same arguments may answer differently.
  \<^item> \<open>completions_create\<close>: \<^verbatim>\<open>client.chat.completions.create(model, messages, tools, stream)\<close>;
    the text of the exception it raises, or the chunks of the stream.
  \<^item> \<open>urandom_hex\<close>: \<^verbatim>\<open>os.urandom(4).hex()\<close>.
  \<^item> \<open>json_loads\<close>: \<^verbatim>\<open>json.loads\<close>; \<open>None\<close> when it raises.
  \<^item> \<open>subprocess_run\<close>: the shell command run in the working directory.
  \<^item> \<open>ddgs_text\<close>: \<^verbatim>\<open>DDGS().text(keywords, max_results=5)\<close>; the text of an exception, or
    the results.
  \<^item> \<open>project_structure\<close>: the result of \<^verbatim>\<open>get_project_structure()\<close> (lines 17 to 34, a
    listing of the working directory; not embedded).
  \<^item> \<open>untyped_call\<close>: the text an executor returns, and the file system it leaves, when
    an argument is not text (each executor catches every exception, so it does return
    text).
  \<^item> \<open>py_str\<close>: the formatting of a value that is not text inside an f-string.
\<close>

record env =
  completions_create :: "nat \<Rightarrow> message list \<Rightarrow> tool_definition list option \<Rightarrow> string + chunk list"
  urandom_hex :: "nat \<Rightarrow> string"
  json_loads :: "string \<Rightarrow> json option"
  subprocess_run :: "nat \<Rightarrow> json \<Rightarrow> filesystem \<Rightarrow> proc_result \<times> filesystem"
  ddgs_text :: "nat \<Rightarrow> json \<Rightarrow> string + search_result list"
  project_structure :: "nat \<Rightarrow> filesystem \<Rightarrow> string"
  untyped_call :: "nat \<Rightarrow> string \<Rightarrow> json list \<Rightarrow> filesystem \<Rightarrow> string \<times> filesystem"
  py_str :: "json \<Rightarrow> string"

text \<open>
  The exceptions that leave \<^verbatim>\<open>handle_message\<close>: \<^verbatim>\<open>AttributeError\<close> when \<^verbatim>\<open>args.get\<close> is
  called on a value that is not a dictionary, \<^verbatim>\<open>TypeError\<close> when the \<^verbatim>\<open>content\<close> of a
  \<^verbatim>\<open>write_file\<close> call is not text and \<^verbatim>\<open>content[:200] + "..."\<close> is evaluated (for a
  dictionary, Python 3.12 and later raise \<^verbatim>\<open>KeyError\<close> there instead). Neither is caught
  before \<^verbatim>\<open>websocket_endpoint\<close>.
\<close>

datatype exn = AttributeError | TypeError

definition newline :: string where
  "newline = [CHR 0x0A]"

definition is_space :: "char \<Rightarrow> bool" where
  "is_space c = (c \<in> set [CHR 0x09, CHR 0x0A, CHR 0x0B, CHR 0x0C, CHR 0x0D,
                            CHR 0x1C, CHR 0x1D, CHR 0x1E, CHR 0x1F, CHR 0x20])"

text \<open>\<^verbatim>\<open>str.strip()\<close>, on ASCII text.\<close>

definition py_strip :: "string \<Rightarrow> string" where
  "py_strip s = rev (dropWhile is_space (rev (dropWhile is_space s)))"

definition is_linebreak :: "char \<Rightarrow> bool" where
  "is_linebreak c = (c \<in> set [CHR 0x0A, CHR 0x0B, CHR 0x0C, CHR 0x0D, CHR 0x1C, CHR 0x1D, CHR 0x1E])"

text \<open>\<^verbatim>\<open>str.splitlines()\<close>, on ASCII text; the first argument is the line being read.\<close>

fun splitlines :: "string \<Rightarrow> string \<Rightarrow> string list" where
  "splitlines cur [] = (if cur = [] then [] else [cur])"
| "splitlines cur [c] = (if is_linebreak c then [cur] else [cur @ [c]])"
| "splitlines cur (c # d # cs) =
     (if c = CHR 0x0D \<and> d = CHR 0x0A then cur # splitlines [] cs
      else if is_linebreak c then cur # splitlines [] (d # cs)
      else splitlines (cur @ [c]) (d # cs))"

text \<open>\<^verbatim>\<open>sep.join(xs)\<close>.\<close>

fun join :: "string \<Rightarrow> string list \<Rightarrow> string" where
  "join sep [] = []"
| "join sep [x] = x"
| "join sep (x # y # ys) = x @ sep @ join sep (y # ys)"

text \<open>A value inside an f-string.\<close>

definition format_value :: "env \<Rightarrow> json \<Rightarrow> string" where
  "format_value env v = (case v of JString s \<Rightarrow> s | _ \<Rightarrow> py_str env v)"

definition send_json :: "event \<Rightarrow> state \<Rightarrow> state" where
  "send_json e s = s\<lparr>history := history s @ [Sent e]\<rparr>"

definition append_message :: "message \<Rightarrow> state \<Rightarrow> state" where
  "append_message m s = s\<lparr>messages := messages s @ [m], history := history s @ [Appended m]\<rparr>"

text \<open>\<^verbatim>\<open>run_terminal_command\<close> (lines 56 to 73).\<close>

definition run_terminal_command :: "env \<Rightarrow> json \<Rightarrow> state \<Rightarrow> string \<times> state" where
  "run_terminal_command env command s =
     (let s1 = s\<lparr>history := history s @ [Executed ''run_terminal_command'' [command]]\<rparr>;
          (result, fs') = subprocess_run env (length (history s)) command (files s);
          s2 = s1\<lparr>files := fs'\<rparr>
      in case result of
           Completed out err \<Rightarrow>
             (let output = (if err \<noteq> [] then out @ newline @ ''STDERR:'' @ newline @ err else out)
              in (if py_strip output \<noteq> [] then py_strip output else ''(No output)'', s2))
         | TimeoutExpired \<Rightarrow> (''Error: Command timed out.'', s2)
         | ProcException e \<Rightarrow> (''Error executing command: '' @ e, s2))"

text \<open>\<^verbatim>\<open>web_search\<close> (lines 75 to 86).\<close>

definition web_search :: "env \<Rightarrow> json \<Rightarrow> state \<Rightarrow> string \<times> state" where
  "web_search env query s =
     (let s1 = s\<lparr>history := history s @ [Executed ''web_search'' [query]]\<rparr>
      in case ddgs_text env (length (history s)) query of
           Inl e \<Rightarrow> (''Error performing web search: '' @ e, s1)
         | Inr results \<Rightarrow>
             (if results = [] then (''No results found.'', s1)
              else (join (newline @ ''---'')
                      (map (\<lambda>r. ''Title: '' @ title r @ newline @ ''Link: '' @ href r @ newline
                                  @ ''Snippet: '' @ body r @ newline) results), s1)))"

text \<open>The two file tools as the session calls them, with a path that may not be text.\<close>

definition call_read_file :: "env \<Rightarrow> json \<Rightarrow> state \<Rightarrow> string \<times> state" where
  "call_read_file env path s =
     (let s1 = s\<lparr>history := history s @ [Executed ''read_file'' [path]]\<rparr>
      in case path of
           JString p \<Rightarrow> (read_file (files s) p, s1)
         | _ \<Rightarrow> (let (out, fs') = untyped_call env (length (history s)) ''read_file'' [path] (files s)
                 in (out, s1\<lparr>files := fs'\<rparr>)))"

definition call_write_file :: "env \<Rightarrow> json \<Rightarrow> string \<Rightarrow> state \<Rightarrow> string \<times> state" where
  "call_write_file env path content s =
     (let s1 = s\<lparr>history := history s @ [Executed ''write_file'' [path, JString content]]\<rparr>;
          (out, fs') = (case path of
                          JString p \<Rightarrow> write_file (files s) p content
                        | _ \<Rightarrow> untyped_call env (length (history s)) ''write_file''
                                 [path, JString content] (files s))
      in (out, s1\<lparr>files := fs'\<rparr>))"

section \<open>OpenAI configuration\<close>

definition TOOL_DEFINITIONS :: "tool_definition list" where
  "TOOL_DEFINITIONS =
     [\<lparr>td_name = ''read_file'',
       td_description = ''Read the contents of a file.'',
       td_properties = [(''path'', ''string'', None)],
       td_required = [''path'']\<rparr>,
      \<lparr>td_name = ''write_file'',
       td_description = ''Write content to a file. Overwrites existing content.'',
       td_properties = [(''path'', ''string'', None), (''content'', ''string'', None)],
       td_required = [''path'', ''content'']\<rparr>,
      \<lparr>td_name = ''run_terminal_command'',
       td_description = ''Run a shell command.'',
       td_properties = [(''command'', ''string'', None)],
       td_required = [''command'']\<rparr>,
      \<lparr>td_name = ''web_search'',
       td_description = ''Search the web for documentation, solutions, or libraries.'',
       td_properties = [(''query'', ''string'', Some ''The search query.'')],
       td_required = [''query'']\<rparr>]"

text \<open>\<^verbatim>\<open>PROMPT_AGENT.format(structure=structure)\<close> and \<^verbatim>\<open>PROMPT_CHAT.format(...)\<close>.\<close>

definition PROMPT_AGENT :: "string \<Rightarrow> string" where
  "PROMPT_AGENT structure =
     newline @ ''You are a Senior Software Engineer. Act autonomously. Plan first.''
     @ newline @ ''You can read files, write files, run terminal commands, and search the web.''
     @ newline @ ''If you see an image, analyze it to understand the bug or error.''
     @ newline @ ''Current Structure:''
     @ newline @ structure @ newline"

definition PROMPT_CHAT :: "string \<Rightarrow> string" where
  "PROMPT_CHAT structure =
     newline @ ''You are a Code Assistant. READ-ONLY mode.''
     @ newline @ ''Current Structure:''
     @ newline @ structure @ newline"

section \<open>Agent session management\<close>

text \<open>
  The session is modelled on these terms: \<^verbatim>\<open>websocket.send_json\<close> records the event and
  does not fail (the client stays connected); a stream is a finite list of chunks, each
  with one choice, and every tool-call fragment has its \<^verbatim>\<open>function\<close> part; the executors
  and the model return. An exception that the source does not catch is a result of the
  function, together with the state at that point.
\<close>

text \<open>\<^verbatim>\<open>AgentSession.initialize\<close> (lines 168 to 177).\<close>

definition initialize :: "env \<Rightarrow> string \<Rightarrow> state \<Rightarrow> state" where
  "initialize env m s =
     (let structure = project_structure env (length (history s)) (files s);
          prompt = (if m = ''agent'' then PROMPT_AGENT else PROMPT_CHAT);
          transcript = [SystemMessage (prompt structure)];
          s1 = s\<lparr>mode := m, messages := transcript, history := history s @ [Assigned transcript]\<rparr>
      in send_json (Thought None (''Session started in '' @ m @ '' mode. I'' @ [CHR 0x27] @ ''m ready.'')) s1)"

text \<open>The truth value of an optional text: \<^verbatim>\<open>None\<close> and the empty text are false.\<close>

fun truthy :: "string option \<Rightarrow> bool" where
  "truthy None = False"
| "truthy (Some t) = (t \<noteq> [])"

text \<open>
  The body of \<^verbatim>\<open>for tc in delta.tool_calls\<close> (lines 225 to 229): a new index gets an entry
  with the fragment's id and name and empty arguments; a name that is not empty replaces
  the entry's name; arguments that are not empty are added at the end of the entry's.
\<close>

definition aggregate_fragment :: "tool_calls \<Rightarrow> fragment \<Rightarrow> tool_calls" where
  "aggregate_fragment tool_calls tc =
     (let idx = tc_index tc;
          d1 = (if map_of tool_calls idx = None
                then AList.update idx \<lparr>call_id = tc_id tc, call_name = fn_name tc, call_args = []\<rparr> tool_calls
                else tool_calls);
          d2 = (if truthy (fn_name tc)
                then AList.map_entry idx (\<lambda>e. e\<lparr>call_name := fn_name tc\<rparr>) d1
                else d1);
          d3 = (if truthy (fn_arguments tc)
                then AList.map_entry idx
                       (\<lambda>e. e\<lparr>call_args := call_args e @ (case fn_arguments tc of Some a \<Rightarrow> a | None \<Rightarrow> [])\<rparr>) d2
                else d2)
      in d3)"

text \<open>
  The body of \<^verbatim>\<open>for chunk in stream\<close> (lines 215 to 229), on the thought text so far, the
  dictionary and the state.
\<close>

definition stream_chunk :: "string \<Rightarrow> string \<times> tool_calls \<times> state \<Rightarrow> chunk \<Rightarrow> string \<times> tool_calls \<times> state" where
  "stream_chunk thought_id acc ch =
     (let (content, tool_calls, s) = acc;
          (content1, s1) =
             (case delta_content ch of
                Some (c # cs) \<Rightarrow>
                  (content @ c # cs, send_json (Thought (Some thought_id) (content @ c # cs)) s)
              | _ \<Rightarrow> (content, s));
          tool_calls1 =
             (case delta_tool_calls ch of
                Some frags \<Rightarrow> foldl aggregate_fragment tool_calls frags
              | None \<Rightarrow> tool_calls)
      in (content1, tool_calls1, s1))"

definition consume_stream :: "string \<Rightarrow> chunk list \<Rightarrow> state \<Rightarrow> string \<times> tool_calls \<times> state" where
  "consume_stream thought_id stream s = foldl (stream_chunk thought_id) ([], [], s) stream"

text \<open>\<^verbatim>\<open>args.get(key, "")\<close>: only a dictionary has \<^verbatim>\<open>get\<close>.\<close>

definition args_get :: "json \<Rightarrow> string \<Rightarrow> exn + json" where
  "args_get args key =
     (case args of
        JObject items \<Rightarrow> Inr (case map_of items key of Some v \<Rightarrow> v | None \<Rightarrow> JString [])
      | _ \<Rightarrow> Inl AttributeError)"

definition event_id_of :: "string option \<Rightarrow> string" where
  "event_id_of call = ''evt-'' @ (case call of Some i \<Rightarrow> i | None \<Rightarrow> ''None'')"

text \<open>
  The body of the second \<^verbatim>\<open>for idx in sorted(tool_calls.keys())\<close> (lines 254 to 304), for
  the entry \<open>tc\<close>. An exception leaves the loop and \<^verbatim>\<open>handle_message\<close>.
\<close>

definition execute_tool_call :: "env \<Rightarrow> tool_call \<Rightarrow> state \<Rightarrow> exn option \<times> state" where
  "execute_tool_call env tc s =
     (let func_name = call_name tc;
          cid = call_id tc;
          args = (case json_loads env (call_args tc) of Some v \<Rightarrow> v | None \<Rightarrow> JObject []);
          event_id = event_id_of cid
      in if func_name = Some ''run_terminal_command'' then
           (case args_get args ''command'' of
              Inl e \<Rightarrow> (Some e, s)
            | Inr cmd \<Rightarrow>
                (let s1 = send_json (Command event_id cmd []) s;
                     (output, s2) = run_terminal_command env cmd s1;
                     s3 = send_json (Command event_id cmd output) s2
                 in (None, append_message (ToolMessage cid output) s3)))
         else if func_name = Some ''read_file'' then
           (case args_get args ''path'' of
              Inl e \<Rightarrow> (Some e, s)
            | Inr path \<Rightarrow>
                (let s1 = send_json (FileReadStart event_id path) s;
                     (content, s2) = call_read_file env path s1;
                     s3 = send_json (FileReadResult event_id path
                                       (length (splitlines [] content)) (take 500 content)) s2
                 in (None, append_message (ToolMessage cid content) s3)))
         else if func_name = Some ''write_file'' then
           (case args_get args ''path'' of
              Inl e \<Rightarrow> (Some e, s)
            | Inr path \<Rightarrow>
                (case args_get args ''content'' of
                   Inl e \<Rightarrow> (Some e, s)
                 | Inr (JString content) \<Rightarrow>
                     (let s1 = send_json (FileWriteStart event_id path (take 200 content @ ''...'')) s;
                          (output, s2) = call_write_file env path content s1;
                          s3 = send_json (FileWriteResult event_id path output) s2
                      in (None, append_message (ToolMessage cid output) s3))
                 | Inr _ \<Rightarrow> (Some TypeError, s)))
         else if func_name = Some ''web_search'' then
           (case args_get args ''query'' of
              Inl e \<Rightarrow> (Some e, s)
            | Inr query \<Rightarrow>
                (let label = JString (''web_search '' @ quoted (format_value env query));
                     s1 = send_json (Command event_id label ''Searching...'') s;
                     (output, s2) = web_search env query s1;
                     s3 = send_json (Command event_id label output) s2
                 in (None, append_message (ToolMessage cid output) s3)))
         else (None, append_message (ToolMessage cid ''Error: Tool not found.'') s))"

text \<open>\<^verbatim>\<open>sorted(tool_calls.keys())\<close> and \<^verbatim>\<open>tool_calls[idx]\<close> for one of these keys.\<close>

definition sorted_keys :: "tool_calls \<Rightarrow> int list" where
  "sorted_keys tool_calls = sort (map fst tool_calls)"

definition dict_get :: "tool_calls \<Rightarrow> int \<Rightarrow> tool_call" where
  "dict_get tool_calls idx = the (map_of tool_calls idx)"

fun run_tool_calls :: "env \<Rightarrow> tool_calls \<Rightarrow> int list \<Rightarrow> state \<Rightarrow> exn option \<times> state" where
  "run_tool_calls env tool_calls [] s = (None, s)"
| "run_tool_calls env tool_calls (idx # idxs) s =
     (case execute_tool_call env (dict_get tool_calls idx) s of
        (Some e, s') \<Rightarrow> (Some e, s')
      | (None, s') \<Rightarrow> run_tool_calls env tool_calls idxs s')"

definition request_of :: "tool_call \<Rightarrow> tool_call_request" where
  "request_of tc = \<lparr>tcr_id = call_id tc, tcr_name = call_name tc, tcr_arguments = call_args tc\<rparr>"

text \<open>How one pass through the body of \<^verbatim>\<open>for _ in range(10)\<close> ends.\<close>

datatype outcome = Continue | Break | Return | Raise exn

text \<open>The body of \<^verbatim>\<open>for _ in range(10)\<close> (lines 199 to 304).\<close>

definition turn :: "env \<Rightarrow> tool_definition list \<Rightarrow> state \<Rightarrow> outcome \<times> state" where
  "turn env allowed_tools s =
     (let tools = (if allowed_tools \<noteq> [] then Some allowed_tools else None);
          s0 = s\<lparr>history := history s @ [Requested (messages s) tools]\<rparr>
      in case completions_create env (length (history s)) (messages s) tools of
           Inl e \<Rightarrow> (Return, send_json (Thought None (''LLM Error: '' @ e)) s0)
         | Inr stream \<Rightarrow>
             (let current_thought_id = ''thought-'' @ urandom_hex env (length (history s));
                  (current_thought_content, tool_calls, s1) = consume_stream current_thought_id stream s0;
                  s2 = (if current_thought_content \<noteq> []
                        then append_message (AssistantMessage current_thought_content) s1
                        else s1)
              in if tool_calls = [] then (Break, s2)
                 else
                   (let tool_calls_msg = map (\<lambda>idx. request_of (dict_get tool_calls idx)) (sorted_keys tool_calls);
                        s3 = append_message
                               (AssistantToolCalls
                                  (if current_thought_content \<noteq> [] then Some current_thought_content else None)
                                  tool_calls_msg) s2
                    in case run_tool_calls env tool_calls (sorted_keys tool_calls) s3 of
                         (Some e, s4) \<Rightarrow> (Raise e, s4)
                       | (None, s4) \<Rightarrow> (Continue, s4))))"

text \<open>\<^verbatim>\<open>for _ in range(n)\<close> around that body.\<close>

fun turn_loop :: "nat \<Rightarrow> env \<Rightarrow> tool_definition list \<Rightarrow> state \<Rightarrow> exn option \<times> state" where
  "turn_loop 0 env allowed_tools s = (None, s)"
| "turn_loop (Suc n) env allowed_tools s =
     (case turn env allowed_tools s of
        (Continue, s') \<Rightarrow> turn_loop n env allowed_tools s'
      | (Break, s') \<Rightarrow> (None, s')
      | (Return, s') \<Rightarrow> (None, s')
      | (Raise e, s') \<Rightarrow> (Some e, s'))"

text \<open>The tools given to the model (lines 192 to 195).\<close>

definition allowed_tools_of :: "string \<Rightarrow> tool_definition list" where
  "allowed_tools_of m =
     (if m = ''chat''
      then filter (\<lambda>t. td_name t \<in> set [''read_file'', ''web_search'']) TOOL_DEFINITIONS
      else TOOL_DEFINITIONS)"

text \<open>\<^verbatim>\<open>AgentSession.handle_message\<close> (lines 179 to 304).\<close>

definition handle_message :: "env \<Rightarrow> string \<Rightarrow> string list option \<Rightarrow> state \<Rightarrow> exn option \<times> state" where
  "handle_message env user_content images s =
     (let s1 = (case images of
                  Some (i # is) \<Rightarrow>
                    append_message (UserParts (TextPart user_content # map ImageUrl (i # is))) s
                | _ \<Rightarrow> append_message (UserMessage user_content) s)
      in turn_loop 10 env (allowed_tools_of (mode s1)) s1)"

section \<open>The connection\<close>

text \<open>
  An inbound frame after \<^verbatim>\<open>json.loads\<close>: a dictionary read through \<^verbatim>\<open>message.get\<close> at the
  keys \<^verbatim>\<open>type\<close>, \<^verbatim>\<open>mode\<close>, \<^verbatim>\<open>path\<close>, \<^verbatim>\<open>content\<close> and \<^verbatim>\<open>images\<close>; a key that is absent is
  \<open>None\<close>. The values are text (a list of texts for \<^verbatim>\<open>images\<close>), as \<^verbatim>\<open>handle_message\<close>
  declares its parameters.
\<close>

record payload =
  p_type :: "string option"
  p_mode :: "string option"
  p_path :: "string option"
  p_content :: "string option"
  p_images :: "string list option"

text \<open>The local variables of \<^verbatim>\<open>websocket_endpoint\<close>: \<^verbatim>\<open>session\<close> and \<^verbatim>\<open>initialized\<close>.\<close>

record connection =
  session :: state
  initialized :: bool

text \<open>The body of \<^verbatim>\<open>while True\<close> (lines 313 to 334) for one received frame.\<close>

definition websocket_step :: "env \<Rightarrow> payload \<Rightarrow> connection \<Rightarrow> exn option \<times> connection" where
  "websocket_step env message c =
     (let s = session c;
          content = (case p_content message of Some t \<Rightarrow> t | None \<Rightarrow> []);
          images = (case p_images message of Some is \<Rightarrow> is | None \<Rightarrow> [])
      in if p_type message = Some ''get_file_content'' then
           (let (text, s1) = call_read_file env
                               (case p_path message of Some p \<Rightarrow> JString p | None \<Rightarrow> JNull) s
            in (None, c\<lparr>session := send_json (FileContent (p_path message) text) s1\<rparr>))
         else if \<not> initialized c then
           (let s1 = initialize env (case p_mode message of Some m \<Rightarrow> m | None \<Rightarrow> ''agent'') s
            in if truthy (p_content message) \<or> (case p_images message of Some (i # is) \<Rightarrow> True | _ \<Rightarrow> False)
               then (case handle_message env content (Some images) s1 of
                       (r, s2) \<Rightarrow> (r, \<lparr>session = s2, initialized = True\<rparr>))
               else (None, \<lparr>session = s1, initialized = True\<rparr>))
         else if p_type message = Some ''user_message'' then
           (case handle_message env content (Some images) s of
              (r, s2) \<Rightarrow> (r, c\<lparr>session := s2\<rparr>))
         else (None, c))"

text \<open>
  \<^verbatim>\<open>websocket_endpoint\<close> (lines 307 to 339) on the frames the client sends before it
  disconnects: an exception ends the loop, as the disconnection does.
\<close>

fun websocket_loop :: "env \<Rightarrow> payload list \<Rightarrow> connection \<Rightarrow> connection" where
  "websocket_loop env [] c = c"
| "websocket_loop env (message # rest) c =
     (case websocket_step env message c of
        (Some e, c') \<Rightarrow> c'
      | (None, c') \<Rightarrow> websocket_loop env rest c')"

definition websocket_endpoint :: "env \<Rightarrow> filesystem \<Rightarrow> payload list \<Rightarrow> connection" where
  "websocket_endpoint env fs frames =
     websocket_loop env frames
       \<lparr>session = \<lparr>messages = [], mode = ''agent'', files = fs, history = []\<rparr>, initialized = False\<rparr>"

section \<open>The file tools\<close>

definition is_file :: "node option \<Rightarrow> bool" where
  "is_file n = (case n of Some (File _) \<Rightarrow> True | _ \<Rightarrow> False)"

lemma not_is_file: "\<not> is_file n \<longleftrightarrow> n = None \<or> n = Some Dir"
  by (auto simp: is_file_def split: option.splits node.splits)

lemma makedirs_empty: "makedirs fs [] = (Some (OSError ENOENT []), fs)"
  by (subst makedirs.simps) (simp add: path_split_def mkdir_def resolve_def isdir_def)

lemma path_split_a_b: "path_split ''a/b'' = (''a'', ''b'')"
  by (simp add: path_split_def)

lemma path_split_a: "path_split ''a'' = ([], ''a'')"
  by (simp add: path_split_def)

lemma dirname_a_b_c: "dirname ''a/b/c.txt'' = ''a/b''"
  by (simp add: path_split_def dirname_def)

lemma makedirs_a_b:
  assumes "tree fs (cwd fs) = Some Dir"
    and "\<not> is_file (tree fs (cwd fs @ [''a'']))"
    and "\<not> is_file (tree fs (cwd fs @ [''a'', ''b'']))"
  shows "makedirs fs ''a/b'' =
     (None, fs\<lparr>tree := (tree fs)(cwd fs @ [''a''] \<mapsto> Dir, cwd fs @ [''a'', ''b''] \<mapsto> Dir)\<rparr>)"
proof -
  from assms(2) consider (absent) "tree fs (cwd fs @ [''a'']) = None"
    | (dir) "tree fs (cwd fs @ [''a'']) = Some Dir"
    by (auto simp: not_is_file)
  then show ?thesis
  proof cases
    case absent
    have e: "\<not> path_exists fs ''a''"
      using assms(1) absent by (simp add: path_exists_def resolve_def)
    have m: "makedirs fs ''a'' = (None, fs\<lparr>tree := (tree fs)(cwd fs @ [''a''] \<mapsto> Dir)\<rparr>)"
      using assms(1) absent by (subst makedirs.simps) (simp add: path_split_a mkdir_def resolve_def)
    from assms(3) show ?thesis
      using assms(1) absent e m
      by (subst makedirs.simps)
        (auto simp add: path_split_a_b mkdir_def resolve_def isdir_def not_is_file fun_upd_idem)
  next
    case dir
    have e: "path_exists fs ''a''"
      using assms(1) dir by (simp add: path_exists_def resolve_def)
    from assms(3) show ?thesis
      using assms(1) dir e
      by (subst makedirs.simps)
        (auto simp add: path_split_a_b mkdir_def resolve_def isdir_def not_is_file fun_upd_idem)
  qed
qed

text \<open>
  C8. In a working directory where nothing stands in the way (\<^verbatim>\<open>a\<close> and \<^verbatim>\<open>a/b\<close> are
  absent or directories, \<^verbatim>\<open>a/b/c.txt\<close> is not a directory), writing \<^verbatim>\<open>X\<close> to
  \<^verbatim>\<open>a/b/c.txt\<close> reports success, reading the file back returns exactly \<^verbatim>\<open>X\<close>, and the
  directories \<^verbatim>\<open>a\<close> and \<^verbatim>\<open>a/b\<close> exist afterwards, created by \<^verbatim>\<open>write_file\<close> when they
  were absent.
\<close>

theorem write_then_read_roundtrip:
  assumes "tree fs (cwd fs) = Some Dir"
    and "\<not> is_file (tree fs (cwd fs @ [''a'']))"
    and "\<not> is_file (tree fs (cwd fs @ [''a'', ''b'']))"
    and "tree fs (cwd fs @ [''a'', ''b'', ''c.txt'']) \<noteq> Some Dir"
  shows "fst (write_file fs ''a/b/c.txt'' ''X'') = ''Successfully wrote to a/b/c.txt''
     \<and> read_file (snd (write_file fs ''a/b/c.txt'' ''X'')) ''a/b/c.txt'' = ''X''
     \<and> isdir (snd (write_file fs ''a/b/c.txt'' ''X'')) ''a''
     \<and> isdir (snd (write_file fs ''a/b/c.txt'' ''X'')) ''a/b''"
proof -
  let ?fs1 = "fs\<lparr>tree := (tree fs)(cwd fs @ [''a''] \<mapsto> Dir, cwd fs @ [''a'', ''b''] \<mapsto> Dir)\<rparr>"
  let ?fs2 = "?fs1\<lparr>tree := (tree ?fs1)(cwd fs @ [''a'', ''b'', ''c.txt''] \<mapsto> File ''X'')\<rparr>"
  have ow: "open_write ?fs1 ''a/b/c.txt'' ''X'' = Inr ?fs2"
    using assms(1,4) by (auto simp add: open_write_def resolve_def split: option.splits node.splits)
  have w: "write_file fs ''a/b/c.txt'' ''X'' = (''Successfully wrote to a/b/c.txt'', ?fs2)"
    unfolding write_file_def dirname_a_b_c makedirs_a_b [OF assms(1,2,3)] using ow by simp
  have r: "read_file ?fs2 ''a/b/c.txt'' = ''X''"
    using assms(1) by (simp add: read_file_def path_exists_def open_read_def resolve_def)
  have d1: "isdir ?fs2 ''a''"
    using assms(1) by (simp add: isdir_def resolve_def)
  have d2: "isdir ?fs2 ''a/b''"
    using assms(1) by (simp add: isdir_def resolve_def)
  show ?thesis
    unfolding w using r d1 d2 by simp
qed

text \<open>The scenario in an empty working directory: \<^verbatim>\<open>a\<close> and \<^verbatim>\<open>a/b\<close> are created.\<close>

definition empty_dir :: filesystem where
  "empty_dir = \<lparr>tree = [[''work''] \<mapsto> Dir, [] \<mapsto> Dir], cwd = [''work'']\<rparr>"

theorem write_then_read_roundtrip_witness:
  "\<not> path_exists empty_dir ''a''
   \<and> fst (write_file empty_dir ''a/b/c.txt'' ''X'') = ''Successfully wrote to a/b/c.txt''
   \<and> read_file (snd (write_file empty_dir ''a/b/c.txt'' ''X'')) ''a/b/c.txt'' = ''X''
   \<and> isdir (snd (write_file empty_dir ''a/b/c.txt'' ''X'')) ''a''
   \<and> isdir (snd (write_file empty_dir ''a/b/c.txt'' ''X'')) ''a/b''"
proof -
  have h1: "tree empty_dir (cwd empty_dir) = Some Dir"
    by (simp add: empty_dir_def)
  have h2: "\<not> is_file (tree empty_dir (cwd empty_dir @ [''a'']))"
    by (simp add: empty_dir_def is_file_def)
  have h3: "\<not> is_file (tree empty_dir (cwd empty_dir @ [''a'', ''b'']))"
    by (simp add: empty_dir_def is_file_def)
  have h4: "tree empty_dir (cwd empty_dir @ [''a'', ''b'', ''c.txt'']) \<noteq> Some Dir"
    by (simp add: empty_dir_def)
  have "\<not> path_exists empty_dir ''a''"
    by (simp add: path_exists_def resolve_def empty_dir_def)
  with write_then_read_roundtrip [OF h1 h2 h3 h4] show ?thesis by simp
qed

text \<open>
  C10. For a path with no directory component (its \<^verbatim>\<open>dirname\<close> is empty) and every
  content, \<^verbatim>\<open>write_file\<close> returns a text that begins with \<^verbatim>\<open>Error writing file:\<close> and
  leaves the file system as it was: \<^verbatim>\<open>os.makedirs('')\<close> raises.
\<close>

theorem write_file_without_directory:
  assumes "dirname path = []"
  shows "write_file fs path content =
           (''Error writing file: '' @ str_oserror (OSError ENOENT []), fs)
         \<and> take 19 (fst (write_file fs path content)) = ''Error writing file:''
         \<and> snd (write_file fs path content) = fs"
  using assms by (simp add: write_file_def makedirs_empty)

theorem write_file_without_directory_witness:
  "dirname ''c.txt'' = []
   \<and> fst (write_file empty_dir ''c.txt'' ''X'')
       = ''Error writing file: [Errno 2] No such file or directory: '' @ [CHR 0x27, CHR 0x27]
   \<and> snd (write_file empty_dir ''c.txt'' ''X'') = empty_dir
   \<and> read_file (snd (write_file empty_dir ''c.txt'' ''X'')) ''c.txt''
       = ''Error: File '' @ [CHR 0x27] @ ''c.txt'' @ [CHR 0x27] @ '' not found.''"
proof -
  have h: "dirname ''c.txt'' = []"
    by (simp add: dirname_def path_split_def)
  have r: "read_file empty_dir ''c.txt'' = ''Error: File '' @ [CHR 0x27] @ ''c.txt'' @ [CHR 0x27] @ '' not found.''"
    by (simp add: read_file_def path_exists_def resolve_def empty_dir_def quoted_def)
  from write_file_without_directory [OF h, of empty_dir "''X''"] r h show ?thesis
    by (simp add: quoted_def)
qed

section \<open>The effects of a round\<close>

lemma send_json_simps [simp]:
  "history (send_json e s) = history s @ [Sent e]"
  "messages (send_json e s) = messages s"
  "mode (send_json e s) = mode s"
  "files (send_json e s) = files s"
  by (simp_all add: send_json_def)

lemma append_message_simps [simp]:
  "history (append_message m s) = history s @ [Appended m]"
  "messages (append_message m s) = messages s @ [m]"
  "mode (append_message m s) = mode s"
  "files (append_message m s) = files s"
  by (simp_all add: append_message_def)

lemma run_terminal_command_frame:
  "run_terminal_command env cmd s = (out, s') \<Longrightarrow>
     history s' = history s @ [Executed ''run_terminal_command'' [cmd]]
     \<and> messages s' = messages s \<and> mode s' = mode s"
  by (auto simp: run_terminal_command_def Let_def split: prod.splits proc_result.splits if_splits)

lemma web_search_frame:
  "web_search env q s = (out, s') \<Longrightarrow>
     history s' = history s @ [Executed ''web_search'' [q]]
     \<and> messages s' = messages s \<and> mode s' = mode s"
  by (auto simp: web_search_def Let_def split: sum.splits if_splits)

lemma call_read_file_frame:
  "call_read_file env p s = (out, s') \<Longrightarrow>
     history s' = history s @ [Executed ''read_file'' [p]]
     \<and> messages s' = messages s \<and> mode s' = mode s"
  by (auto simp: call_read_file_def Let_def split: json.splits prod.splits)

lemma call_write_file_frame:
  "call_write_file env p c s = (out, s') \<Longrightarrow>
     history s' = history s @ [Executed ''write_file'' [p, JString c]]
     \<and> messages s' = messages s \<and> mode s' = mode s"
  by (auto simp: call_write_file_def Let_def split: json.splits prod.splits)

text \<open>The \<^verbatim>\<open>id\<close> of the event of a tool.\<close>

definition event_ident :: "event \<Rightarrow> string option" where
  "event_ident e =
     (case e of
        Thought _ _ \<Rightarrow> None
      | Command i _ _ \<Rightarrow> Some i
      | FileReadStart i _ \<Rightarrow> Some i
      | FileReadResult i _ _ _ \<Rightarrow> Some i
      | FileWriteStart i _ _ \<Rightarrow> Some i
      | FileWriteResult i _ _ \<Rightarrow> Some i
      | FileContent _ _ \<Rightarrow> None)"

definition known_tools :: "string list" where
  "known_tools = [''run_terminal_command'', ''read_file'', ''write_file'', ''web_search'']"

text \<open>
  The effects of one tool call \<open>tc\<close> with result text \<open>out\<close>: for a tool the dispatch
  knows, the start event, the executor's call, the result event and the appended tool
  message, the two events under the call's event id; for any other name, only the
  appended tool message, with the fixed text.
\<close>

definition call_block :: "tool_call \<Rightarrow> string \<Rightarrow> effect list \<Rightarrow> bool" where
  "call_block tc out block =
     ((call_name tc \<notin> Some ` set known_tools \<and> out = ''Error: Tool not found.'' \<and>
       block = [Appended (ToolMessage (call_id tc) out)]) \<or>
      (\<exists>name start args result.
         call_name tc = Some name \<and> name \<in> set known_tools \<and>
         event_ident start = Some (event_id_of (call_id tc)) \<and>
         event_ident result = Some (event_id_of (call_id tc)) \<and>
         block = [Sent start, Executed name args, Sent result, Appended (ToolMessage (call_id tc) out)]))"

lemma execute_tool_call_shape:
  assumes "execute_tool_call env tc s = (r, s')"
  shows "mode s' = mode s \<and>
     (case r of
        Some e \<Rightarrow> s' = s
      | None \<Rightarrow> (\<exists>out block. call_block tc out block \<and> history s' = history s @ block \<and>
                   messages s' = messages s @ [ToolMessage (call_id tc) out]))"
  using assms
  apply (simp add: execute_tool_call_def Let_def
      split: if_splits sum.splits prod.splits json.splits option.splits)
                      apply (auto simp: call_block_def known_tools_def event_ident_def
      dest!: run_terminal_command_frame web_search_frame call_read_file_frame call_write_file_frame)
  done

text \<open>The messages appended, the requests issued and the executors called in a list of effects.\<close>

fun appended :: "effect list \<Rightarrow> message list" where
  "appended [] = []"
| "appended (Appended m # es) = m # appended es"
| "appended (_ # es) = appended es"

fun completion_requests :: "effect list \<Rightarrow> (message list \<times> tool_definition list option) list" where
  "completion_requests [] = []"
| "completion_requests (Requested ms ts # es) = (ms, ts) # completion_requests es"
| "completion_requests (_ # es) = completion_requests es"

fun executed :: "effect list \<Rightarrow> string list" where
  "executed [] = []"
| "executed (Executed name args # es) = name # executed es"
| "executed (_ # es) = executed es"

lemma appended_append [simp]: "appended (xs @ ys) = appended xs @ appended ys"
  by (induction xs rule: appended.induct) simp_all

lemma completion_requests_append [simp]:
  "completion_requests (xs @ ys) = completion_requests xs @ completion_requests ys"
  by (induction xs rule: completion_requests.induct) simp_all

lemma executed_append [simp]: "executed (xs @ ys) = executed xs @ executed ys"
  by (induction xs rule: executed.induct) simp_all

text \<open>
  What a round may do after its request, where \<open>N\<close> holds the names the model gave
  to its tool calls: send a streamed thought, an \<^verbatim>\<open>LLM Error\<close> thought or a tool event,
  append a message that is not a system message, call an executor named in \<open>N\<close>.
\<close>

definition round_effect :: "string option set \<Rightarrow> effect \<Rightarrow> bool" where
  "round_effect N x =
     (case x of
        Sent (Thought (Some _) _) \<Rightarrow> True
      | Sent (Thought None t) \<Rightarrow> take 11 t = ''LLM Error: ''
      | Sent (FileContent _ _) \<Rightarrow> False
      | Sent _ \<Rightarrow> True
      | Appended (SystemMessage _) \<Rightarrow> False
      | Appended _ \<Rightarrow> True
      | Executed name _ \<Rightarrow> Some name \<in> N
      | _ \<Rightarrow> False)"

lemma call_block_effects:
  assumes "call_block tc out block" and "call_name tc \<in> N"
  shows "list_all (round_effect N) block \<and> appended block = [ToolMessage (call_id tc) out]
     \<and> completion_requests block = []"
  using assms unfolding call_block_def
  apply (elim disjE conjE exE)
   apply (simp add: round_effect_def)
  subgoal for name start args result
    by (cases start; cases result; simp add: round_effect_def event_ident_def)
  done

section \<open>The streaming aggregator\<close>

definition text_of :: "string option \<Rightarrow> string" where
  "text_of a = (case a of Some t \<Rightarrow> t | None \<Rightarrow> [])"

text \<open>
  What one fragment does to the entry of its index: a first fragment gives the entry its
  id and name; a later one replaces the name when it carries a name that is not empty,
  and its arguments are added at the end.
\<close>

fun merge_fragment :: "tool_call option \<Rightarrow> fragment \<Rightarrow> tool_call" where
  "merge_fragment None f =
     \<lparr>call_id = tc_id f, call_name = fn_name f, call_args = text_of (fn_arguments f)\<rparr>"
| "merge_fragment (Some e) f =
     e\<lparr>call_name := (if truthy (fn_name f) then fn_name f else call_name e),
       call_args := call_args e @ text_of (fn_arguments f)\<rparr>"

lemma truthy_text_of: "\<not> truthy a \<Longrightarrow> text_of a = []"
  by (cases a) (auto simp: text_of_def)

lemma map_of_aggregate_fragment:
  "map_of (aggregate_fragment d f) i =
     (if i = tc_index f then Some (merge_fragment (map_of d i) f) else map_of d i)"
proof (cases "map_of d (tc_index f)")
  case None
  then show ?thesis
    by (auto simp: aggregate_fragment_def Let_def map_of_map_entry update_conv' truthy_text_of
        text_of_def split: option.splits)
next
  case (Some e)
  then show ?thesis
    by (auto simp: aggregate_fragment_def Let_def map_of_map_entry truthy_text_of
        text_of_def split: option.splits)
qed

lemma distinct_aggregate_fragment:
  "distinct (map fst d) \<Longrightarrow> distinct (map fst (aggregate_fragment d f))"
  by (simp add: aggregate_fragment_def Let_def distinct_map_entry distinct_update)

lemma distinct_foldl_aggregate:
  "distinct (map fst d) \<Longrightarrow> distinct (map fst (foldl aggregate_fragment d frags))"
  by (induction frags arbitrary: d) (simp_all add: distinct_aggregate_fragment)

text \<open>The fragments of a stream in the order the loop meets them, and those of one index.\<close>

definition stream_fragments :: "chunk list \<Rightarrow> fragment list" where
  "stream_fragments stream =
     concat (map (\<lambda>ch. case delta_tool_calls ch of Some frags \<Rightarrow> frags | None \<Rightarrow> []) stream)"

definition at_index :: "int \<Rightarrow> fragment list \<Rightarrow> fragment list" where
  "at_index i frags = filter (\<lambda>f. tc_index f = i) frags"

text \<open>
  The call that the fragments of one index spell: the id of the first fragment, the last
  name that is not empty (the first fragment's name when there is none), and the
  arguments of all fragments one after the other.
\<close>

definition first_id :: "fragment list \<Rightarrow> string option" where
  "first_id fs = (case fs of [] \<Rightarrow> None | f # _ \<Rightarrow> tc_id f)"

definition effective_name :: "fragment list \<Rightarrow> string option" where
  "effective_name fs =
     (case filter truthy (map fn_name fs) of
        [] \<Rightarrow> (case fs of [] \<Rightarrow> None | f # _ \<Rightarrow> fn_name f)
      | n # ns \<Rightarrow> last (n # ns))"

definition args_text :: "fragment list \<Rightarrow> string" where
  "args_text fs = concat (map (\<lambda>f. text_of (fn_arguments f)) fs)"

definition assembled :: "fragment list \<Rightarrow> tool_call option" where
  "assembled fs =
     (if fs = [] then None
      else Some \<lparr>call_id = first_id fs, call_name = effective_name fs, call_args = args_text fs\<rparr>)"

lemma assembled_snoc: "assembled (fs @ [f]) = Some (merge_fragment (assembled fs) f)"
proof (cases fs)
  case Nil
  then show ?thesis
    by (simp add: assembled_def first_id_def effective_name_def args_text_def)
next
  case (Cons g gs)
  then show ?thesis
    by (cases "filter truthy (map fn_name gs)")
      (auto simp: assembled_def first_id_def effective_name_def args_text_def)
qed

lemma map_of_foldl_aggregate:
  "map_of (foldl aggregate_fragment [] frags) i = assembled (at_index i frags)"
proof (induction frags rule: rev_induct)
  case Nil
  then show ?case by (simp add: assembled_def at_index_def)
next
  case (snoc f frags)
  then show ?case
    by (auto simp add: map_of_aggregate_fragment at_index_def assembled_snoc)
qed

lemma foldl_stream_tool_calls:
  "fst (snd (foldl (stream_chunk tid) (c, d, s) stream))
     = foldl aggregate_fragment d (stream_fragments stream)"
proof (induction stream arbitrary: c d s)
  case Nil
  then show ?case by (simp add: stream_fragments_def)
next
  case (Cons ch stream)
  obtain c1 d1 s1 where st: "stream_chunk tid (c, d, s) ch = (c1, d1, s1)"
    by (cases "stream_chunk tid (c, d, s) ch")
  then have d1: "d1 = foldl aggregate_fragment d
      (case delta_tool_calls ch of Some frags \<Rightarrow> frags | None \<Rightarrow> [])"
    by (auto simp: stream_chunk_def Let_def split: option.splits list.splits prod.splits)
  show ?case
    using Cons.IH [of c1 d1 s1] st d1 by (simp add: stream_fragments_def)
qed

lemma consume_stream_tool_calls:
  "fst (snd (consume_stream tid stream s)) = foldl aggregate_fragment [] (stream_fragments stream)"
  unfolding consume_stream_def by (rule foldl_stream_tool_calls)


text \<open>The calls of a round in the order of the two loops over \<^verbatim>\<open>sorted(tool_calls.keys())\<close>.\<close>

definition ordered_calls :: "tool_calls \<Rightarrow> tool_call list" where
  "ordered_calls d = map (dict_get d) (sorted_keys d)"

text \<open>
  Two fragment sequences spell the same calls: they use the same indices and, at each
  index, agree on the id of the first fragment, on the last name that is not empty and on
  the text of the arguments. Splitting the arguments of a fragment over several
  fragments, moving fragments to other chunks, interleaving the fragments of different
  indices and sending a name after the first fragment all keep a sequence in this
  relation with the unsplit one.
\<close>

definition same_calls :: "fragment list \<Rightarrow> fragment list \<Rightarrow> bool" where
  "same_calls xs ys =
     (\<forall>i. (at_index i xs = []) = (at_index i ys = [])
        \<and> first_id (at_index i xs) = first_id (at_index i ys)
        \<and> effective_name (at_index i xs) = effective_name (at_index i ys)
        \<and> args_text (at_index i xs) = args_text (at_index i ys))"

lemma keys_foldl_aggregate:
  "set (map fst (foldl aggregate_fragment [] frags)) = {i. assembled (at_index i frags) \<noteq> None}"
proof -
  have "set (map fst (foldl aggregate_fragment [] frags))
      = dom (map_of (foldl aggregate_fragment [] frags))"
    by (simp add: dom_map_of_conv_image_fst)
  also have "\<dots> = {i. assembled (at_index i frags) \<noteq> None}"
    by (auto simp: dom_def map_of_foldl_aggregate)
  finally show ?thesis .
qed

lemma same_calls_assembled:
  "same_calls xs ys \<Longrightarrow> assembled (at_index i xs) = assembled (at_index i ys)"
  by (simp add: same_calls_def assembled_def)

lemma same_calls_ordered:
  assumes "same_calls xs ys"
  shows "ordered_calls (foldl aggregate_fragment [] xs) = ordered_calls (foldl aggregate_fragment [] ys)"
proof -
  let ?d = "foldl aggregate_fragment [] xs" and ?e = "foldl aggregate_fragment [] ys"
  have m: "map_of ?d = map_of ?e"
    by (rule ext) (simp add: map_of_foldl_aggregate same_calls_assembled [OF assms])
  have s: "set (map fst ?d) = set (map fst ?e)"
    by (simp only: keys_foldl_aggregate same_calls_assembled [OF assms])
  have dd: "distinct (map fst ?d)" and de: "distinct (map fst ?e)"
    by (simp_all add: distinct_foldl_aggregate)
  have k: "sorted_keys ?d = sorted_keys ?e"
    unfolding sorted_keys_def
    by (rule sorted_distinct_set_unique) (use s dd de in simp_all)
  have g: "dict_get ?d = dict_get ?e"
    by (rule ext) (simp add: dict_get_def m)
  show ?thesis
    by (simp add: ordered_calls_def k g)
qed

text \<open>
  C4, as the code has it. For two streams of chunks that spell the same calls with each
  id in the first fragment of its index (whatever the chunk boundaries, however the
  arguments are cut, also into single characters, and wherever the names stand), the
  aggregation loop of \<^verbatim>\<open>handle_message\<close> yields the same calls in index order. At every
  index the entry is the call its fragments spell: the id of the first fragment, never
  replaced; the first name, replaced only by a later name that is not empty; the
  arguments of all fragments, concatenated.
\<close>

theorem aggregation_split_invariant:
  assumes "same_calls (stream_fragments stream) (stream_fragments stream')"
  shows "ordered_calls (fst (snd (consume_stream tid stream s)))
           = ordered_calls (fst (snd (consume_stream tid' stream' s')))
       \<and> map_of (fst (snd (consume_stream tid stream s))) i
           = assembled (at_index i (stream_fragments stream))"
  using same_calls_ordered [OF assms]
  by (simp add: consume_stream_tool_calls map_of_foldl_aggregate)

text \<open>
  An unsplit stream of two calls, and a split of it: the chunks interleave the two
  indices, cut the arguments into single characters, send the name of the second call
  in a later fragment than its id and end with an empty name.
\<close>

definition frag :: "int \<Rightarrow> string option \<Rightarrow> string option \<Rightarrow> string option \<Rightarrow> fragment" where
  "frag i c n a = \<lparr>tc_index = i, tc_id = c, fn_name = n, fn_arguments = a\<rparr>"

definition unsplit_stream :: "chunk list" where
  "unsplit_stream =
     [\<lparr>delta_content = None,
       delta_tool_calls = Some [frag 0 (Some ''call_a'') (Some ''read_file'') (Some ''{p}''),
                                frag 1 (Some ''call_b'') (Some ''web_search'') (Some ''{}'')]\<rparr>]"

definition split_stream :: "chunk list" where
  "split_stream =
     [\<lparr>delta_content = None, delta_tool_calls = Some [frag 1 (Some ''call_b'') None None]\<rparr>,
      \<lparr>delta_content = Some ''hm'',
       delta_tool_calls = Some [frag 0 (Some ''call_a'') (Some ''read_file'') (Some ''{'')]\<rparr>,
      \<lparr>delta_content = None,
       delta_tool_calls = Some [frag 1 None (Some ''web_search'') (Some ''{''),
                                frag 0 None None (Some ''p'')]\<rparr>,
      \<lparr>delta_content = None, delta_tool_calls = None\<rparr>,
      \<lparr>delta_content = None,
       delta_tool_calls = Some [frag 0 None (Some []) (Some ''}''), frag 1 None None (Some ''}'')]\<rparr>]"

definition idle :: state where
  "idle = \<lparr>messages = [], mode = ''agent'', files = empty_dir, history = []\<rparr>"

theorem aggregation_split_invariant_witness:
  "same_calls (stream_fragments unsplit_stream) (stream_fragments split_stream)
   \<and> ordered_calls (fst (snd (consume_stream ''t1'' split_stream idle)))
       = ordered_calls (fst (snd (consume_stream ''t0'' unsplit_stream idle)))
   \<and> ordered_calls (fst (snd (consume_stream ''t0'' unsplit_stream idle)))
       = [\<lparr>call_id = Some ''call_a'', call_name = Some ''read_file'', call_args = ''{p}''\<rparr>,
          \<lparr>call_id = Some ''call_b'', call_name = Some ''web_search'', call_args = ''{}''\<rparr>]"
proof -
  have h: "same_calls (stream_fragments unsplit_stream) (stream_fragments split_stream)"
    by (auto simp: same_calls_def stream_fragments_def unsplit_stream_def split_stream_def
        frag_def at_index_def first_id_def effective_name_def args_text_def text_of_def)
  have v: "ordered_calls (fst (snd (consume_stream ''t0'' unsplit_stream idle)))
       = [\<lparr>call_id = Some ''call_a'', call_name = Some ''read_file'', call_args = ''{p}''\<rparr>,
          \<lparr>call_id = Some ''call_b'', call_name = Some ''web_search'', call_args = ''{}''\<rparr>]"
    by (simp add: consume_stream_def stream_chunk_def unsplit_stream_def frag_def
        aggregate_fragment_def ordered_calls_def sorted_keys_def dict_get_def)
  from aggregation_split_invariant [OF h, of "''t0''" idle "''t1''" idle 0] h v
  show ?thesis by simp
qed


text \<open>
  C4, as stated, fails for a split that places the id in a later fragment than the
  first of its index: the entry keeps the missing id of the first fragment.
\<close>

definition whole_stream :: "chunk list" where
  "whole_stream =
     [\<lparr>delta_content = None,
       delta_tool_calls = Some [frag 0 (Some ''call_a'') (Some ''read_file'') (Some ''{p}'')]\<rparr>]"

definition late_id_stream :: "chunk list" where
  "late_id_stream =
     [\<lparr>delta_content = None, delta_tool_calls = Some [frag 0 None None (Some ''{'')]\<rparr>,
      \<lparr>delta_content = None,
       delta_tool_calls = Some [frag 0 (Some ''call_a'') (Some ''read_file'') (Some ''p}'')]\<rparr>]"

theorem aggregation_late_id_counterexample:
  "args_text (stream_fragments late_id_stream) = args_text (stream_fragments whole_stream)
   \<and> ordered_calls (fst (snd (consume_stream ''t0'' whole_stream idle)))
       = [\<lparr>call_id = Some ''call_a'', call_name = Some ''read_file'', call_args = ''{p}''\<rparr>]
   \<and> ordered_calls (fst (snd (consume_stream ''t0'' late_id_stream idle)))
       = [\<lparr>call_id = None, call_name = Some ''read_file'', call_args = ''{p}''\<rparr>]
   \<and> ordered_calls (fst (snd (consume_stream ''t0'' late_id_stream idle)))
       \<noteq> ordered_calls (fst (snd (consume_stream ''t0'' whole_stream idle)))"
  by (simp add: consume_stream_def stream_chunk_def whole_stream_def late_id_stream_def frag_def
      aggregate_fragment_def ordered_calls_def sorted_keys_def dict_get_def
      stream_fragments_def args_text_def text_of_def)

section \<open>Rounds and turns\<close>

text \<open>A streamed thought: the only effect of reading the stream.\<close>

definition is_thought :: "effect \<Rightarrow> bool" where
  "is_thought x = (case x of Sent (Thought (Some _) _) \<Rightarrow> True | _ \<Rightarrow> False)"

lemma is_thought_effects:
  "list_all is_thought es \<Longrightarrow>
     list_all (round_effect N) es \<and> appended es = [] \<and> completion_requests es = [] \<and> executed es = []"
proof (induction es)
  case Nil
  then show ?case by simp
next
  case (Cons x es)
  then show ?case
    by (cases x)
      (auto simp: is_thought_def round_effect_def split: event.splits option.splits)
qed

lemma stream_chunk_frame:
  "stream_chunk tid (c, d, s) ch = (c', d', s') \<Longrightarrow>
     messages s' = messages s \<and> mode s' = mode s \<and>
     (\<exists>es. history s' = history s @ es \<and> list_all is_thought es)"
  by (auto simp: stream_chunk_def Let_def is_thought_def split: option.splits list.splits)

lemma foldl_stream_frame:
  "foldl (stream_chunk tid) (c, d, s) stream = (c', d', s') \<Longrightarrow>
     messages s' = messages s \<and> mode s' = mode s \<and>
     (\<exists>es. history s' = history s @ es \<and> list_all is_thought es)"
proof (induction stream arbitrary: c d s)
  case Nil
  then show ?case by simp
next
  case (Cons ch stream)
  obtain c1 d1 s1 where st: "stream_chunk tid (c, d, s) ch = (c1, d1, s1)"
    by (cases "stream_chunk tid (c, d, s) ch")
  from Cons.prems st have "foldl (stream_chunk tid) (c1, d1, s1) stream = (c', d', s')"
    by simp
  from Cons.IH [OF this] stream_chunk_frame [OF st] show ?case
    by auto
qed

lemma consume_stream_frame:
  "consume_stream tid stream s = (c', d', s') \<Longrightarrow>
     messages s' = messages s \<and> mode s' = mode s \<and>
     (\<exists>es. history s' = history s @ es \<and> list_all is_thought es)"
  unfolding consume_stream_def by (rule foldl_stream_frame)

lemma effective_name_in: "fs \<noteq> [] \<Longrightarrow> effective_name fs \<in> fn_name ` set fs"
proof (cases "filter truthy (map fn_name fs)")
  case Nil
  assume "fs \<noteq> []"
  with Nil show ?thesis
    by (cases fs) (auto simp: effective_name_def)
next
  case (Cons n ns)
  then have "last (n # ns) \<in> set (filter truthy (map fn_name fs))"
    by (metis last_in_set list.distinct(1))
  then have "last (n # ns) \<in> fn_name ` set fs"
    by auto
  moreover have "effective_name fs = last (n # ns)"
    unfolding effective_name_def Cons by simp
  ultimately show ?thesis
    by (simp only:)
qed

lemma sorted_keys_lookup:
  "idx \<in> set (sorted_keys d) \<Longrightarrow> map_of d idx = Some (dict_get d idx)"
  by (cases "map_of d idx") (auto simp: sorted_keys_def dict_get_def map_of_eq_None_iff)

lemma aggregated_names:
  assumes "idx \<in> set (sorted_keys (foldl aggregate_fragment [] frags))"
  shows "call_name (dict_get (foldl aggregate_fragment [] frags) idx) \<in> fn_name ` set frags"
proof -
  from sorted_keys_lookup [OF assms]
  have a: "assembled (at_index idx frags) = Some (dict_get (foldl aggregate_fragment [] frags) idx)"
    by (simp add: map_of_foldl_aggregate)
  then have ne: "at_index idx frags \<noteq> []"
    by (auto simp: assembled_def)
  from a ne have "dict_get (foldl aggregate_fragment [] frags) idx
      = \<lparr>call_id = first_id (at_index idx frags),
         call_name = effective_name (at_index idx frags),
         call_args = args_text (at_index idx frags)\<rparr>"
    by (simp add: assembled_def)
  then have "call_name (dict_get (foldl aggregate_fragment [] frags) idx)
      = effective_name (at_index idx frags)"
    by simp
  with effective_name_in [OF ne] show ?thesis
    by (auto simp: at_index_def)
qed

lemma run_tool_calls_effects:
  assumes "run_tool_calls env tcs idxs s = (r, s')"
    and "\<forall>idx \<in> set idxs. call_name (dict_get tcs idx) \<in> N"
  shows "mode s' = mode s \<and>
     (\<exists>es. history s' = history s @ es \<and> list_all (round_effect N) es
        \<and> completion_requests es = [] \<and> messages s' = messages s @ appended es)"
  using assms
proof (induction idxs arbitrary: s)
  case Nil
  then show ?case by simp
next
  case (Cons idx idxs)
  obtain r1 s1 where ex: "execute_tool_call env (dict_get tcs idx) s = (r1, s1)"
    by (cases "execute_tool_call env (dict_get tcs idx) s")
  note sh = execute_tool_call_shape [OF ex]
  show ?case
  proof (cases r1)
    case (Some e)
    with Cons.prems ex sh have "s' = s" by auto
    then show ?thesis by simp
  next
    case None
    with sh obtain out block where b: "call_block (dict_get tcs idx) out block"
       "history s1 = history s @ block"
       "messages s1 = messages s @ [ToolMessage (call_id (dict_get tcs idx)) out]"
       "mode s1 = mode s"
      by auto
    from Cons.prems have n: "call_name (dict_get tcs idx) \<in> N" by simp
    note be = call_block_effects [OF b(1) n]
    from None Cons.prems ex have "run_tool_calls env tcs idxs s1 = (r, s')" by simp
    from Cons.IH [OF this] Cons.prems(2) obtain es where ih: "mode s' = mode s1"
        "history s' = history s1 @ es" "list_all (round_effect N) es"
        "completion_requests es = []" "messages s' = messages s1 @ appended es"
      by auto
    show ?thesis
      using ih b be by (auto intro!: exI [of _ "block @ es"])
  qed
qed

text \<open>The \<^verbatim>\<open>tools\<close> argument of a request: \<^verbatim>\<open>allowed_tools if allowed_tools else None\<close>.\<close>

definition tools_param :: "tool_definition list \<Rightarrow> tool_definition list option" where
  "tools_param allowed_tools = (if allowed_tools \<noteq> [] then Some allowed_tools else None)"

lemma turn_effects:
  assumes "turn env al s = (out, s')"
    and "\<forall>stream. completions_create env (length (history s)) (messages s) (tools_param al) = Inr stream
            \<longrightarrow> fn_name ` set (stream_fragments stream) \<subseteq> N"
  shows "mode s' = mode s \<and>
     (\<exists>es. history s' = history s @ Requested (messages s) (tools_param al) # es
        \<and> list_all (round_effect N) es \<and> completion_requests es = []
        \<and> messages s' = messages s @ appended es)"
proof (cases "completions_create env (length (history s)) (messages s) (tools_param al)")
  case (Inl e)
  with assms(1) have "s' = send_json (Thought None (''LLM Error: '' @ e))
      (s\<lparr>history := history s @ [Requested (messages s) (tools_param al)]\<rparr>)"
    by (auto simp: turn_def tools_param_def Let_def)
  then show ?thesis
    by (simp add: round_effect_def)
next
  case (Inr stream)
  let ?s0 = "s\<lparr>history := history s @ [Requested (messages s) (tools_param al)]\<rparr>"
  let ?tid = "''thought-'' @ urandom_hex env (length (history s))"
  obtain c d s1 where cs: "consume_stream ?tid stream ?s0 = (c, d, s1)"
    by (cases "consume_stream ?tid stream ?s0")
  from consume_stream_frame [OF cs] obtain es1 where f1: "messages s1 = messages s"
      "mode s1 = mode s" "history s1 = history ?s0 @ es1" "list_all is_thought es1"
    by auto
  note t1 = is_thought_effects [OF f1(4), of N]
  have d: "d = foldl aggregate_fragment [] (stream_fragments stream)"
    using consume_stream_tool_calls [of ?tid stream ?s0] cs by simp
  define s2 where "s2 = (if c \<noteq> [] then append_message (AssistantMessage c) s1 else s1)"
  define es2 where "es2 = (if c \<noteq> [] then [Appended (AssistantMessage c)] else [])"
  have f2: "messages s2 = messages s1 @ appended es2" "mode s2 = mode s1"
      "history s2 = history s1 @ es2" "list_all (round_effect N) es2" "completion_requests es2 = []"
    by (simp_all add: s2_def es2_def round_effect_def)
  show ?thesis
  proof (cases "d = []")
    case True
    with assms(1) Inr cs have "s' = s2"
      by (auto simp: turn_def tools_param_def Let_def s2_def)
    with f1 f2 t1 show ?thesis
      by (auto intro!: exI [of _ "es1 @ es2"])
  next
    case False
    let ?m = "AssistantToolCalls (if c \<noteq> [] then Some c else None)
        (map (\<lambda>idx. request_of (dict_get d idx)) (sorted_keys d))"
    obtain r s4 where rt: "run_tool_calls env d (sorted_keys d) (append_message ?m s2) = (r, s4)"
      by (cases "run_tool_calls env d (sorted_keys d) (append_message ?m s2)")
    from False assms(1) Inr cs rt have "s' = s4"
      by (auto simp: turn_def tools_param_def Let_def s2_def split: option.splits)
    moreover have "\<forall>idx \<in> set (sorted_keys d). call_name (dict_get d idx) \<in> N"
      using aggregated_names [of _ "stream_fragments stream"] assms(2) Inr d by auto
    from run_tool_calls_effects [OF rt this] obtain es3 where f3: "mode s4 = mode s2"
        "history s4 = history (append_message ?m s2) @ es3" "list_all (round_effect N) es3"
        "completion_requests es3 = []" "messages s4 = messages (append_message ?m s2) @ appended es3"
      by auto
    ultimately show ?thesis
      using f1 f2 t1 f3
      by (auto intro!: exI [of _ "es1 @ es2 @ Appended ?m # es3"] simp: round_effect_def)
  qed
qed

lemma turn_loop_effects:
  assumes "turn_loop n env al s = (r, s')"
    and "\<forall>t ms stream. completions_create env t ms (tools_param al) = Inr stream
            \<longrightarrow> fn_name ` set (stream_fragments stream) \<subseteq> N"
  shows "mode s' = mode s \<and>
     (\<exists>es. history s' = history s @ es
        \<and> list_all (\<lambda>x. round_effect N x \<or> (\<exists>ms. x = Requested ms (tools_param al))) es
        \<and> length (completion_requests es) \<le> n
        \<and> messages s' = messages s @ appended es)"
  using assms(1)
proof (induction n arbitrary: s)
  case 0
  then show ?case by simp
next
  case (Suc n)
  obtain out s1 where t: "turn env al s = (out, s1)"
    by (cases "turn env al s")
  from assms(2) have "\<forall>stream. completions_create env (length (history s)) (messages s) (tools_param al) = Inr stream
            \<longrightarrow> fn_name ` set (stream_fragments stream) \<subseteq> N"
    by blast
  from turn_effects [OF t this] obtain es1 where f1: "mode s1 = mode s"
      "history s1 = history s @ Requested (messages s) (tools_param al) # es1"
      "list_all (round_effect N) es1" "completion_requests es1 = []"
      "messages s1 = messages s @ appended es1"
    by auto
  let ?P = "\<lambda>x. round_effect N x \<or> (\<exists>ms. x = Requested ms (tools_param al))"
  have p1: "list_all ?P (Requested (messages s) (tools_param al) # es1)"
    using f1(3) by (auto simp: list_all_iff)
  show ?case
  proof (cases out)
    case Continue
    with Suc.prems t have "turn_loop n env al s1 = (r, s')" by simp
    from Suc.IH [OF this] obtain es where ih: "mode s' = mode s1"
        "history s' = history s1 @ es" "list_all ?P es"
        "length (completion_requests es) \<le> n" "messages s' = messages s1 @ appended es"
      by auto
    show ?thesis
      using f1 ih p1
      by (auto intro!: exI [of _ "Requested (messages s) (tools_param al) # es1 @ es"])
  next
    case Break
    with Suc.prems t have "s' = s1" by simp
    with f1 p1 show ?thesis
      by (auto intro!: exI [of _ "Requested (messages s) (tools_param al) # es1"])
  next
    case Return
    with Suc.prems t have "s' = s1" by simp
    with f1 p1 show ?thesis
      by (auto intro!: exI [of _ "Requested (messages s) (tools_param al) # es1"])
  next
    case (Raise e)
    with Suc.prems t have "s' = s1" by simp
    with f1 p1 show ?thesis
      by (auto intro!: exI [of _ "Requested (messages s) (tools_param al) # es1"])
  qed
qed

text \<open>
  What \<^verbatim>\<open>handle_message\<close> may do in a session of mode \<open>m\<close>: the effects of a round, or a
  request with the tools of the mode.
\<close>

definition turn_effect :: "string \<Rightarrow> string option set \<Rightarrow> effect \<Rightarrow> bool" where
  "turn_effect m N x =
     (round_effect N x \<or> (\<exists>ms. x = Requested ms (tools_param (allowed_tools_of m))))"

lemma handle_message_effects:
  assumes "handle_message env user_content images s = (r, s')"
    and "\<forall>t ms stream. completions_create env t ms (tools_param (allowed_tools_of (mode s))) = Inr stream
            \<longrightarrow> fn_name ` set (stream_fragments stream) \<subseteq> N"
  shows "mode s' = mode s \<and>
     (\<exists>es. history s' = history s @ es
        \<and> list_all (turn_effect (mode s) N) es
        \<and> length (completion_requests es) \<le> 10
        \<and> messages s' = messages s @ appended es)"
proof -
  define s1 where "s1 = (case images of
                  Some (i # is) \<Rightarrow>
                    append_message (UserParts (TextPart user_content # map ImageUrl (i # is))) s
                | _ \<Rightarrow> append_message (UserMessage user_content) s)"
  have "\<exists>m. s1 = append_message m s \<and> round_effect N (Appended m)"
    by (auto simp: s1_def round_effect_def split: option.splits list.splits)
  then obtain m where m: "s1 = append_message m s" "round_effect N (Appended m)"
    by blast
  then have ms: "mode s1 = mode s" by simp
  from assms(1) have tl: "turn_loop 10 env (allowed_tools_of (mode s)) s1 = (r, s')"
    unfolding handle_message_def s1_def [symmetric] Let_def ms by simp
  from turn_loop_effects [OF tl assms(2)] obtain es where f: "mode s' = mode s1"
      "history s' = history s1 @ es"
      "list_all (\<lambda>x. round_effect N x \<or> (\<exists>ms. x = Requested ms (tools_param (allowed_tools_of (mode s))))) es"
      "length (completion_requests es) \<le> 10" "messages s' = messages s1 @ appended es"
    by auto
  show ?thesis
    using f m
    by (auto intro!: exI [of _ "Appended m # es"] simp: turn_effect_def [abs_def])
qed

text \<open>
  C3. One call of \<^verbatim>\<open>handle_message\<close> issues at most ten streamed completion requests,
  whatever the model answers, whatever the tools return and however the call ends: the
  history after the call is the history before it followed by effects with at most ten
  requests among them.
\<close>

theorem at_most_ten_requests:
  "length (completion_requests (history (snd (handle_message env user_content images s))))
     \<le> length (completion_requests (history s)) + 10"
proof -
  obtain r s' where h: "handle_message env user_content images s = (r, s')"
    by (cases "handle_message env user_content images s")
  have "\<forall>t ms stream. completions_create env t ms (tools_param (allowed_tools_of (mode s))) = Inr stream
            \<longrightarrow> fn_name ` set (stream_fragments stream) \<subseteq> UNIV"
    by simp
  from handle_message_effects [OF h this] obtain es where
    "history s' = history s @ es" "length (completion_requests es) \<le> 10"
    by auto
  with h show ?thesis by simp
qed

lemma run_tool_calls_shape:
  "run_tool_calls env tcs idxs s = (r, s') \<Longrightarrow>
     \<exists>obs. list_all2 (\<lambda>idx (out, block). call_block (dict_get tcs idx) out block)
             (take (length obs) idxs) obs
        \<and> history s' = history s @ concat (map snd obs)
        \<and> messages s' = messages s
             @ map2 (\<lambda>idx out. ToolMessage (call_id (dict_get tcs idx)) out)
                 (take (length obs) idxs) (map fst obs)
        \<and> (case r of None \<Rightarrow> length obs = length idxs | Some e \<Rightarrow> length obs < length idxs)"
proof (induction idxs arbitrary: s)
  case Nil
  then show ?case by simp
next
  case (Cons idx idxs)
  obtain r1 s1 where ex: "execute_tool_call env (dict_get tcs idx) s = (r1, s1)"
    by (cases "execute_tool_call env (dict_get tcs idx) s")
  note sh = execute_tool_call_shape [OF ex]
  show ?case
  proof (cases r1)
    case (Some e)
    with Cons.prems ex sh have "r = Some e" "s' = s" by auto
    then show ?thesis by (auto intro!: exI [of _ "[]"])
  next
    case None
    with sh obtain out block where b: "call_block (dict_get tcs idx) out block"
       "history s1 = history s @ block"
       "messages s1 = messages s @ [ToolMessage (call_id (dict_get tcs idx)) out]"
      by auto
    from None Cons.prems ex have "run_tool_calls env tcs idxs s1 = (r, s')" by simp
    from Cons.IH [OF this] obtain obs where ih:
        "list_all2 (\<lambda>idx (out, block). call_block (dict_get tcs idx) out block)
          (take (length obs) idxs) obs"
        "history s' = history s1 @ concat (map snd obs)"
        "messages s' = messages s1
             @ map2 (\<lambda>idx out. ToolMessage (call_id (dict_get tcs idx)) out)
                 (take (length obs) idxs) (map fst obs)"
        "(case r of None \<Rightarrow> length obs = length idxs | Some e \<Rightarrow> length obs < length idxs)"
      by auto
    show ?thesis
      using ih b by (auto intro!: exI [of _ "(out, block) # obs"] split: option.splits)
  qed
qed

text \<open>
  The loop over \<^verbatim>\<open>sorted(tool_calls.keys())\<close> (lines 253 to 304) takes the indices in
  ascending order and adds to the history one block of effects per call, one block
  after the other: for a tool the dispatch knows, the start event, the executor's call,
  the result event and the appended tool message, in this order and nothing between
  them; for any other name, the appended tool message alone. Every effect of the call
  at a smaller index thus comes before every effect of the call at a greater one. When
  the loop ends normally there is a block for every call; when a call raises, there are
  blocks for exactly the calls before it.
\<close>

theorem tool_calls_run_in_index_order:
  assumes "run_tool_calls env tool_calls (sorted_keys tool_calls) s = (r, s')"
  shows "sorted (sorted_keys tool_calls)
     \<and> (\<exists>obs. list_all2 (\<lambda>idx (out, block). call_block (dict_get tool_calls idx) out block)
                 (take (length obs) (sorted_keys tool_calls)) obs
          \<and> history s' = history s @ concat (map snd obs)
          \<and> (case r of
                None \<Rightarrow> length obs = length tool_calls
              | Some e \<Rightarrow> length obs < length tool_calls))"
proof -
  have len: "length (sorted_keys tool_calls) = length tool_calls"
    by (simp add: sorted_keys_def)
  have srt: "sorted (sorted_keys tool_calls)"
    by (simp add: sorted_keys_def)
  from run_tool_calls_shape [OF assms] obtain obs where
      "list_all2 (\<lambda>idx (out, block). call_block (dict_get tool_calls idx) out block)
          (take (length obs) (sorted_keys tool_calls)) obs"
      "history s' = history s @ concat (map snd obs)"
      "(case r of None \<Rightarrow> length obs = length (sorted_keys tool_calls)
         | Some e \<Rightarrow> length obs < length (sorted_keys tool_calls))"
    by blast
  with srt show ?thesis
    unfolding len by blast
qed

text \<open>
  A round on \<^verbatim>\<open>turn\<close>: when the model's stream carries tool-call fragments, the round
  appends the assistant message with the calls in index order and then runs the calls
  it accumulated, in ascending index order, one block of effects per call.
\<close>

theorem round_runs_its_calls_in_index_order:
  assumes "turn env allowed_tools s = (out, s')"
    and "completions_create env (length (history s)) (messages s) (tools_param allowed_tools) = Inr stream"
    and "stream_fragments stream \<noteq> []"
  shows "\<exists>thoughts text obs.
           list_all is_thought thoughts
         \<and> sorted (sorted_keys (foldl aggregate_fragment [] (stream_fragments stream)))
         \<and> list_all2 (\<lambda>idx (out, block).
                call_block (dict_get (foldl aggregate_fragment [] (stream_fragments stream)) idx) out block)
              (take (length obs) (sorted_keys (foldl aggregate_fragment [] (stream_fragments stream)))) obs
         \<and> history s' = history s
             @ Requested (messages s) (tools_param allowed_tools) # thoughts
             @ (if text \<noteq> [] then [Appended (AssistantMessage text)] else [])
             @ [Appended (AssistantToolCalls (if text \<noteq> [] then Some text else None)
                  (map request_of (ordered_calls (foldl aggregate_fragment [] (stream_fragments stream)))))]
             @ concat (map snd obs)
         \<and> (case out of
               Continue \<Rightarrow> length obs = length (sorted_keys (foldl aggregate_fragment [] (stream_fragments stream)))
             | Raise e \<Rightarrow> length obs < length (sorted_keys (foldl aggregate_fragment [] (stream_fragments stream)))
             | _ \<Rightarrow> False)"
proof -
  let ?s0 = "s\<lparr>history := history s @ [Requested (messages s) (tools_param allowed_tools)]\<rparr>"
  let ?tid = "''thought-'' @ urandom_hex env (length (history s))"
  let ?d = "foldl aggregate_fragment [] (stream_fragments stream)"
  obtain c d s1 where cs: "consume_stream ?tid stream ?s0 = (c, d, s1)"
    by (cases "consume_stream ?tid stream ?s0")
  from consume_stream_frame [OF cs] obtain es1 where f1:
      "history s1 = history ?s0 @ es1" "list_all is_thought es1"
    by auto
  have d: "d = ?d"
    using consume_stream_tool_calls [of ?tid stream ?s0] cs by simp
  have "set (map fst ?d) = {i. assembled (at_index i (stream_fragments stream)) \<noteq> None}"
    by (rule keys_foldl_aggregate)
  moreover from assms(3) obtain f fs where "stream_fragments stream = f # fs"
    by (cases "stream_fragments stream") auto
  then have "assembled (at_index (tc_index f) (stream_fragments stream)) \<noteq> None"
    by (simp add: assembled_def at_index_def)
  ultimately have ne: "d \<noteq> []"
    unfolding d by (metis (mono_tags, lifting) empty_iff list.set(1) mem_Collect_eq list.map_disc_iff)
  define s2 where "s2 = (if c \<noteq> [] then append_message (AssistantMessage c) s1 else s1)"
  have f2: "history s2 = history s1 @ (if c \<noteq> [] then [Appended (AssistantMessage c)] else [])"
    by (simp add: s2_def)
  let ?m = "AssistantToolCalls (if c \<noteq> [] then Some c else None)
      (map (\<lambda>idx. request_of (dict_get d idx)) (sorted_keys d))"
  obtain r s4 where rt: "run_tool_calls env d (sorted_keys d) (append_message ?m s2) = (r, s4)"
    by (cases "run_tool_calls env d (sorted_keys d) (append_message ?m s2)")
  from assms(1,2) cs rt ne have res: "s' = s4" "out = (case r of None \<Rightarrow> Continue | Some e \<Rightarrow> Raise e)"
    by (auto simp: turn_def tools_param_def Let_def s2_def split: option.splits if_splits)
  from run_tool_calls_shape [OF rt] obtain obs where sh:
      "list_all2 (\<lambda>idx (out, block). call_block (dict_get d idx) out block)
             (take (length obs) (sorted_keys d)) obs
        \<and> history s4 = history (append_message ?m s2) @ concat (map snd obs)
        \<and> messages s4 = messages (append_message ?m s2)
             @ map2 (\<lambda>idx out. ToolMessage (call_id (dict_get d idx)) out)
                 (take (length obs) (sorted_keys d)) (map fst obs)
        \<and> (case r of None \<Rightarrow> length obs = length (sorted_keys d)
             | Some e \<Rightarrow> length obs < length (sorted_keys d))" ..
  have m: "map request_of (ordered_calls d) = map (\<lambda>idx. request_of (dict_get d idx)) (sorted_keys d)"
    by (simp add: ordered_calls_def)
  have h: "history s' = history s
             @ Requested (messages s) (tools_param allowed_tools) # es1
             @ (if c \<noteq> [] then [Appended (AssistantMessage c)] else [])
             @ [Appended (AssistantToolCalls (if c \<noteq> [] then Some c else None)
                  (map request_of (ordered_calls d)))]
             @ concat (map snd obs)"
    unfolding m using sh res(1) f1(1) f2 by simp
  have o: "(case out of
               Continue \<Rightarrow> length obs = length (sorted_keys d)
             | Raise e \<Rightarrow> length obs < length (sorted_keys d)
             | _ \<Rightarrow> False)"
    using sh res(2) by (cases r) simp_all
  have srt: "sorted (sorted_keys d)"
    by (simp add: sorted_keys_def)
  from sh have l: "list_all2 (\<lambda>idx (out, block). call_block (dict_get d idx) out block)
             (take (length obs) (sorted_keys d)) obs"
    by simp
  from f1(2) srt l h o show ?thesis
    unfolding d by blast
qed

text \<open>
  C1. A round that handles tool calls and completes appends, after the thought text if
  there is any, one assistant message with the tool calls in index order and then one
  tool message per call of that assistant message, in the same order, each with the id
  of its call.
\<close>

theorem tool_messages_follow_their_calls:
  assumes "turn env allowed_tools s = (Continue, s')"
  shows "\<exists>text calls outs.
           calls \<noteq> [] \<and> length outs = length calls
         \<and> messages s' = messages s
             @ (if text \<noteq> [] then [AssistantMessage text] else [])
             @ [AssistantToolCalls (if text \<noteq> [] then Some text else None) calls]
             @ map2 (\<lambda>call out. ToolMessage (tcr_id call) out) calls outs"
proof (cases "completions_create env (length (history s)) (messages s) (tools_param allowed_tools)")
  case (Inl e)
  with assms show ?thesis
    by (auto simp: turn_def tools_param_def Let_def)
next
  case (Inr stream)
  let ?s0 = "s\<lparr>history := history s @ [Requested (messages s) (tools_param allowed_tools)]\<rparr>"
  let ?tid = "''thought-'' @ urandom_hex env (length (history s))"
  obtain c d s1 where cs: "consume_stream ?tid stream ?s0 = (c, d, s1)"
    by (cases "consume_stream ?tid stream ?s0")
  from consume_stream_frame [OF cs] have f1: "messages s1 = messages s"
    by simp
  define s2 where "s2 = (if c \<noteq> [] then append_message (AssistantMessage c) s1 else s1)"
  have f2: "messages s2 = messages s @ (if c \<noteq> [] then [AssistantMessage c] else [])"
    by (simp add: s2_def f1)
  let ?calls = "map (\<lambda>idx. request_of (dict_get d idx)) (sorted_keys d)"
  let ?m = "AssistantToolCalls (if c \<noteq> [] then Some c else None) ?calls"
  obtain r s4 where rt: "run_tool_calls env d (sorted_keys d) (append_message ?m s2) = (r, s4)"
    by (cases "run_tool_calls env d (sorted_keys d) (append_message ?m s2)")
  from assms Inr cs rt have res: "d \<noteq> []" "r = None" "s' = s4"
    by (auto simp: turn_def tools_param_def Let_def s2_def split: option.splits if_splits)
  from run_tool_calls_shape [OF rt] obtain obs where sh:
      "list_all2 (\<lambda>idx (out, block). call_block (dict_get d idx) out block)
             (take (length obs) (sorted_keys d)) obs
        \<and> history s4 = history (append_message ?m s2) @ concat (map snd obs)
        \<and> messages s4 = messages (append_message ?m s2)
             @ map2 (\<lambda>idx out. ToolMessage (call_id (dict_get d idx)) out)
                 (take (length obs) (sorted_keys d)) (map fst obs)
        \<and> (case r of None \<Rightarrow> length obs = length (sorted_keys d)
             | Some e \<Rightarrow> length obs < length (sorted_keys d))" ..
  then have sh0: "messages s4 = messages (append_message ?m s2)
             @ map2 (\<lambda>idx out. ToolMessage (call_id (dict_get d idx)) out)
                 (take (length obs) (sorted_keys d)) (map fst obs)"
      "(case r of None \<Rightarrow> length obs = length (sorted_keys d)
         | Some e \<Rightarrow> length obs < length (sorted_keys d))"
    by simp_all
  from sh0(2) res(2) have sh1: "length obs = length (sorted_keys d)"
    by simp
  from sh0(1) sh1 have sh2: "messages s4 = messages (append_message ?m s2)
             @ map2 (\<lambda>idx out. ToolMessage (call_id (dict_get d idx)) out)
                 (sorted_keys d) (map fst obs)"
    by simp
  have z: "map2 (\<lambda>call out. ToolMessage (tcr_id call) out) ?calls (map fst obs)
      = map2 (\<lambda>idx out. ToolMessage (call_id (dict_get d idx)) out) (sorted_keys d) (map fst obs)"
    by (simp add: zip_map1 request_of_def case_prod_unfold)
  have "length (sorted_keys d) = length d"
    by (simp add: sorted_keys_def)
  with res(1) have "sorted_keys d \<noteq> []"
    by (metis length_0_conv)
  then have ne: "?calls \<noteq> []"
    by simp
  have len: "length (map fst obs) = length ?calls"
    using sh1 by simp
  have "messages s' = messages s
             @ (if c \<noteq> [] then [AssistantMessage c] else [])
             @ [?m]
             @ map2 (\<lambda>call out. ToolMessage (tcr_id call) out) ?calls (map fst obs)"
    unfolding z using sh2 res(3) f2 by simp
  with ne len show ?thesis
    by blast
qed

section \<open>A sample run\<close>

text \<open>
  A model that asks for two tool calls when the transcript is short (a search at index
  1, sent before the file read at index 0) and answers in text afterwards; a file system
  with one file; \<^verbatim>\<open>json.loads\<close> restricted to the argument texts that occur.
\<close>

definition read_args :: string where
  "read_args = ''{'' @ [CHR 0x22] @ ''path'' @ [CHR 0x22] @ '': '' @ [CHR 0x22] @ ''notes.txt'' @ [CHR 0x22] @ ''}''"

definition search_args :: string where
  "search_args = ''{'' @ [CHR 0x22] @ ''query'' @ [CHR 0x22] @ '': '' @ [CHR 0x22] @ ''isabelle'' @ [CHR 0x22] @ ''}''"

definition sample_stream :: "chunk list" where
  "sample_stream =
     [\<lparr>delta_content = Some ''Looking.'', delta_tool_calls = None\<rparr>,
      \<lparr>delta_content = None,
       delta_tool_calls = Some [frag 1 (Some ''call_b'') (Some ''web_search'') (Some search_args)]\<rparr>,
      \<lparr>delta_content = None,
       delta_tool_calls = Some [frag 0 (Some ''call_a'') (Some ''read_file'') (Some read_args)]\<rparr>]"

definition sample_env :: env where
  "sample_env =
     \<lparr>completions_create =
        (\<lambda>t ms tools. if length ms \<le> 2 then Inr sample_stream
                       else Inr [\<lparr>delta_content = Some ''Done.'', delta_tool_calls = None\<rparr>]),
      urandom_hex = (\<lambda>t. ''0a1b2c3d''),
      json_loads =
        (\<lambda>text. if text = read_args then Some (JObject [(''path'', JString ''notes.txt'')])
                 else if text = search_args then Some (JObject [(''query'', JString ''isabelle'')])
                 else if text = ''5'' then Some (JNumber ''5'')
                 else None),
      subprocess_run = (\<lambda>t command fs. (Completed ''ok'' [], fs)),
      ddgs_text = (\<lambda>t query. Inr []),
      project_structure = (\<lambda>t fs. ''work/''),
      untyped_call = (\<lambda>t name args fs. (''Error'', fs)),
      py_str = (\<lambda>v. ''?'')\<rparr>"

definition sample_files :: filesystem where
  "sample_files =
     \<lparr>tree = [[''work'', ''notes.txt''] \<mapsto> File ''remember'', [''work''] \<mapsto> Dir, [] \<mapsto> Dir],
      cwd = [''work'']\<rparr>"

definition sample_calls :: tool_calls where
  "sample_calls =
     [(1, \<lparr>call_id = Some ''call_b'', call_name = Some ''web_search'', call_args = search_args\<rparr>),
      (0, \<lparr>call_id = Some ''call_a'', call_name = Some ''read_file'', call_args = read_args\<rparr>)]"

definition sample_state :: state where
  "sample_state =
     \<lparr>messages = [SystemMessage ''You are a Code Assistant.'', UserMessage ''read my notes''],
      mode = ''agent'', files = sample_files, history = []\<rparr>"

lemma sample_run_tool_calls:
  "run_tool_calls sample_env sample_calls (sorted_keys sample_calls) sample_state =
     (None, sample_state
        \<lparr>messages := messages sample_state @
           [ToolMessage (Some ''call_a'') ''remember'', ToolMessage (Some ''call_b'') ''No results found.''],
         history :=
           [Sent (FileReadStart ''evt-call_a'' (JString ''notes.txt'')),
            Executed ''read_file'' [JString ''notes.txt''],
            Sent (FileReadResult ''evt-call_a'' (JString ''notes.txt'') 1 ''remember''),
            Appended (ToolMessage (Some ''call_a'') ''remember''),
            Sent (Command ''evt-call_b'' (JString (''web_search '' @ quoted ''isabelle'')) ''Searching...''),
            Executed ''web_search'' [JString ''isabelle''],
            Sent (Command ''evt-call_b'' (JString (''web_search '' @ quoted ''isabelle'')) ''No results found.''),
            Appended (ToolMessage (Some ''call_b'') ''No results found.'')]\<rparr>)"
  by (simp add: sorted_keys_def sample_calls_def dict_get_def execute_tool_call_def sample_env_def
      read_args_def search_args_def args_get_def event_id_of_def call_read_file_def
      web_search_def sample_state_def sample_files_def read_file_def path_exists_def
      resolve_def open_read_def send_json_def append_message_def format_value_def
      is_linebreak_def Let_def quoted_def)


text \<open>
  In the sample run the search was sent first but has index 1, so the file read at
  index 0 runs first, and its four effects come before the four of the search.
\<close>

theorem tool_calls_run_in_index_order_witness:
  "sorted_keys sample_calls = [0, 1]
   \<and> fst (run_tool_calls sample_env sample_calls (sorted_keys sample_calls) sample_state) = None
   \<and> history (snd (run_tool_calls sample_env sample_calls (sorted_keys sample_calls) sample_state))
       = [Sent (FileReadStart ''evt-call_a'' (JString ''notes.txt'')),
          Executed ''read_file'' [JString ''notes.txt''],
          Sent (FileReadResult ''evt-call_a'' (JString ''notes.txt'') 1 ''remember''),
          Appended (ToolMessage (Some ''call_a'') ''remember''),
          Sent (Command ''evt-call_b'' (JString (''web_search '' @ quoted ''isabelle'')) ''Searching...''),
          Executed ''web_search'' [JString ''isabelle''],
          Sent (Command ''evt-call_b'' (JString (''web_search '' @ quoted ''isabelle'')) ''No results found.''),
          Appended (ToolMessage (Some ''call_b'') ''No results found.'')]
   \<and> (\<exists>obs. list_all2 (\<lambda>idx (out, block). call_block (dict_get sample_calls idx) out block)
                (sorted_keys sample_calls) obs
         \<and> length obs = 2
         \<and> history (snd (run_tool_calls sample_env sample_calls (sorted_keys sample_calls) sample_state))
             = history sample_state @ concat (map snd obs))"
proof -
  have k: "sorted_keys sample_calls = [0, 1]"
    by (simp add: sorted_keys_def sample_calls_def)
  have l: "length sample_calls = 2"
    by (simp add: sample_calls_def)
  note run = sample_run_tool_calls
  from tool_calls_run_in_index_order [OF run] obtain obs where
      "list_all2 (\<lambda>idx (out, block). call_block (dict_get sample_calls idx) out block)
          (take (length obs) (sorted_keys sample_calls)) obs"
      "history (snd (run_tool_calls sample_env sample_calls (sorted_keys sample_calls) sample_state))
         = history sample_state @ concat (map snd obs)"
      "length obs = length sample_calls"
    by (auto simp: run)
  then have "\<exists>obs. list_all2 (\<lambda>idx (out, block). call_block (dict_get sample_calls idx) out block)
                (sorted_keys sample_calls) obs
         \<and> length obs = 2
         \<and> history (snd (run_tool_calls sample_env sample_calls (sorted_keys sample_calls) sample_state))
             = history sample_state @ concat (map snd obs)"
    by (intro exI [of _ obs]) (simp add: k l)
  moreover have "fst (run_tool_calls sample_env sample_calls (sorted_keys sample_calls) sample_state) = None"
    by (simp only: run fst_conv)
  moreover have "history (snd (run_tool_calls sample_env sample_calls (sorted_keys sample_calls) sample_state))
       = [Sent (FileReadStart ''evt-call_a'' (JString ''notes.txt'')),
          Executed ''read_file'' [JString ''notes.txt''],
          Sent (FileReadResult ''evt-call_a'' (JString ''notes.txt'') 1 ''remember''),
          Appended (ToolMessage (Some ''call_a'') ''remember''),
          Sent (Command ''evt-call_b'' (JString (''web_search '' @ quoted ''isabelle'')) ''Searching...''),
          Executed ''web_search'' [JString ''isabelle''],
          Sent (Command ''evt-call_b'' (JString (''web_search '' @ quoted ''isabelle'')) ''No results found.''),
          Appended (ToolMessage (Some ''call_b'') ''No results found.'')]"
    unfolding run by simp
  ultimately show ?thesis
    using k by (intro conjI)
qed

lemma sample_turn:
  "fst (turn sample_env TOOL_DEFINITIONS sample_state) = Continue
   \<and> messages (snd (turn sample_env TOOL_DEFINITIONS sample_state))
       = [SystemMessage ''You are a Code Assistant.'',
          UserMessage ''read my notes'',
          AssistantMessage ''Looking.'',
          AssistantToolCalls (Some ''Looking.'')
            [\<lparr>tcr_id = Some ''call_a'', tcr_name = Some ''read_file'', tcr_arguments = read_args\<rparr>,
             \<lparr>tcr_id = Some ''call_b'', tcr_name = Some ''web_search'', tcr_arguments = search_args\<rparr>],
          ToolMessage (Some ''call_a'') ''remember'',
          ToolMessage (Some ''call_b'') ''No results found.'']"
  by (simp add: turn_def TOOL_DEFINITIONS_def sample_stream_def frag_def consume_stream_def
      stream_chunk_def aggregate_fragment_def request_of_def
      sorted_keys_def dict_get_def execute_tool_call_def sample_env_def
      read_args_def search_args_def args_get_def event_id_of_def call_read_file_def
      web_search_def sample_state_def sample_files_def read_file_def path_exists_def
      resolve_def open_read_def send_json_def append_message_def format_value_def
      is_linebreak_def Let_def quoted_def)

text \<open>The witness of C1: a round of the sample run.\<close>

theorem tool_messages_follow_their_calls_witness:
  "fst (turn sample_env TOOL_DEFINITIONS sample_state) = Continue
   \<and> messages (snd (turn sample_env TOOL_DEFINITIONS sample_state))
       = messages sample_state
         @ [AssistantMessage ''Looking.'',
            AssistantToolCalls (Some ''Looking.'')
              [\<lparr>tcr_id = Some ''call_a'', tcr_name = Some ''read_file'', tcr_arguments = read_args\<rparr>,
               \<lparr>tcr_id = Some ''call_b'', tcr_name = Some ''web_search'', tcr_arguments = search_args\<rparr>],
            ToolMessage (Some ''call_a'') ''remember'',
            ToolMessage (Some ''call_b'') ''No results found.'']
   \<and> (\<exists>text calls outs.
           calls \<noteq> [] \<and> length outs = length calls
         \<and> messages (snd (turn sample_env TOOL_DEFINITIONS sample_state)) = messages sample_state
             @ (if text \<noteq> [] then [AssistantMessage text] else [])
             @ [AssistantToolCalls (if text \<noteq> [] then Some text else None) calls]
             @ map2 (\<lambda>call out. ToolMessage (tcr_id call) out) calls outs)"
proof -
  have t: "turn sample_env TOOL_DEFINITIONS sample_state
      = (Continue, snd (turn sample_env TOOL_DEFINITIONS sample_state))"
    using sample_turn by (metis prod.collapse)
  from tool_messages_follow_their_calls [OF t] sample_turn show ?thesis
    by (simp add: sample_state_def)
qed

text \<open>
  The round of the sample run: both calls of the stream are run, the file read at index
  0 before the search at index 1.
\<close>

theorem round_runs_its_calls_in_index_order_witness:
  "completions_create sample_env (length (history sample_state)) (messages sample_state)
       (tools_param TOOL_DEFINITIONS) = Inr sample_stream
   \<and> stream_fragments sample_stream \<noteq> []
   \<and> sorted_keys (foldl aggregate_fragment [] (stream_fragments sample_stream)) = [0, 1]
   \<and> fst (turn sample_env TOOL_DEFINITIONS sample_state) = Continue
   \<and> (\<exists>thoughts text obs.
           list_all is_thought thoughts
         \<and> length obs = 2
         \<and> list_all2 (\<lambda>idx (out, block).
                call_block (dict_get (foldl aggregate_fragment [] (stream_fragments sample_stream)) idx) out block)
              [0, 1] obs
         \<and> history (snd (turn sample_env TOOL_DEFINITIONS sample_state)) = history sample_state
             @ Requested (messages sample_state) (tools_param TOOL_DEFINITIONS) # thoughts
             @ (if text \<noteq> [] then [Appended (AssistantMessage text)] else [])
             @ [Appended (AssistantToolCalls (if text \<noteq> [] then Some text else None)
                  (map request_of (ordered_calls (foldl aggregate_fragment [] (stream_fragments sample_stream)))))]
             @ concat (map snd obs))"
proof -
  let ?d = "foldl aggregate_fragment [] (stream_fragments sample_stream)"
  have c: "completions_create sample_env (length (history sample_state)) (messages sample_state)
       (tools_param TOOL_DEFINITIONS) = Inr sample_stream"
    by (simp add: sample_env_def sample_state_def)
  have n: "stream_fragments sample_stream \<noteq> []"
    by (simp add: stream_fragments_def sample_stream_def)
  have k: "sorted_keys ?d = [0, 1]"
    by code_simp
  have o: "fst (turn sample_env TOOL_DEFINITIONS sample_state) = Continue"
    using sample_turn by simp
  have t: "turn sample_env TOOL_DEFINITIONS sample_state
      = (Continue, snd (turn sample_env TOOL_DEFINITIONS sample_state))"
    using o by (metis prod.collapse)
  from round_runs_its_calls_in_index_order [OF t c n] obtain thoughts spoken obs where r:
      "list_all is_thought thoughts"
      "list_all2 (\<lambda>idx (out, block). call_block (dict_get ?d idx) out block)
              (take (length obs) (sorted_keys ?d)) obs"
      "history (snd (turn sample_env TOOL_DEFINITIONS sample_state)) = history sample_state
             @ Requested (messages sample_state) (tools_param TOOL_DEFINITIONS) # thoughts
             @ (if spoken \<noteq> [] then [Appended (AssistantMessage spoken)] else [])
             @ [Appended (AssistantToolCalls (if spoken \<noteq> [] then Some spoken else None)
                  (map request_of (ordered_calls ?d)))]
             @ concat (map snd obs)"
      "length obs = length (sorted_keys ?d)"
    by auto
  from r(4) have l: "length obs = 2"
    by (simp only: k) simp
  from r(2) have a: "list_all2 (\<lambda>idx (out, block). call_block (dict_get ?d idx) out block) [0, 1] obs"
    unfolding l k by simp
  from r(1) l a r(3) have "\<exists>thoughts text obs.
           list_all is_thought thoughts
         \<and> length obs = 2
         \<and> list_all2 (\<lambda>idx (out, block). call_block (dict_get ?d idx) out block) [0, 1] obs
         \<and> history (snd (turn sample_env TOOL_DEFINITIONS sample_state)) = history sample_state
             @ Requested (messages sample_state) (tools_param TOOL_DEFINITIONS) # thoughts
             @ (if text \<noteq> [] then [Appended (AssistantMessage text)] else [])
             @ [Appended (AssistantToolCalls (if text \<noteq> [] then Some text else None)
                  (map request_of (ordered_calls ?d)))]
             @ concat (map snd obs)"
    by blast
  with c n k o show ?thesis
    by (intro conjI)
qed

section \<open>Arguments that do not parse\<close>

text \<open>The executors called in a list of effects, with their arguments.\<close>

fun executor_calls :: "effect list \<Rightarrow> (string \<times> json list) list" where
  "executor_calls [] = []"
| "executor_calls (Executed name args # es) = (name, args) # executor_calls es"
| "executor_calls (_ # es) = executor_calls es"

lemma executor_calls_append [simp]:
  "executor_calls (xs @ ys) = executor_calls xs @ executor_calls ys"
  by (induction xs rule: executor_calls.induct) simp_all

text \<open>
  The call of an executor with the default of \<^verbatim>\<open>args.get(key, "")\<close> for every argument;
  no call for a name the dispatch does not know.
\<close>

definition default_call :: "string option \<Rightarrow> (string \<times> json list) list" where
  "default_call name =
     (if name = Some ''run_terminal_command'' then [(''run_terminal_command'', [JString []])]
      else if name = Some ''read_file'' then [(''read_file'', [JString []])]
      else if name = Some ''write_file'' then [(''write_file'', [JString [], JString []])]
      else if name = Some ''web_search'' then [(''web_search'', [JString []])]
      else [])"

lemma execute_tool_call_unparsable:
  assumes "json_loads env (call_args tc) = None"
    and "execute_tool_call env tc s = (r, s')"
  shows "r = None
     \<and> executor_calls (history s') = executor_calls (history s) @ default_call (call_name tc)
     \<and> (\<exists>out. messages s' = messages s @ [ToolMessage (call_id tc) out])"
  using assms
  apply (simp add: execute_tool_call_def Let_def args_get_def default_call_def
      split: if_splits prod.splits)
     apply (auto dest!: run_terminal_command_frame web_search_frame call_read_file_frame
      call_write_file_frame)
  done

text \<open>
  The degradation that the code performs (lines 257 to 260): when \<^verbatim>\<open>json.loads\<close> raises
  on the argument text of a call, the call raises nothing, the executor of a known tool is called with the empty text for
  every argument (no executor for an unknown name), one tool message with the call's id
  is appended, and the loop goes on with the next index.
\<close>

theorem unparsable_arguments_degrade:
  assumes "json_loads env (call_args (dict_get tool_calls idx)) = None"
  shows "fst (execute_tool_call env (dict_get tool_calls idx) s) = None
     \<and> executor_calls (history (snd (execute_tool_call env (dict_get tool_calls idx) s)))
         = executor_calls (history s) @ default_call (call_name (dict_get tool_calls idx))
     \<and> (\<exists>out. messages (snd (execute_tool_call env (dict_get tool_calls idx) s))
                 = messages s @ [ToolMessage (call_id (dict_get tool_calls idx)) out])
     \<and> run_tool_calls env tool_calls (idx # idxs) s
         = run_tool_calls env tool_calls idxs (snd (execute_tool_call env (dict_get tool_calls idx) s))"
proof -
  obtain r s' where e: "execute_tool_call env (dict_get tool_calls idx) s = (r, s')"
    by (cases "execute_tool_call env (dict_get tool_calls idx) s")
  from execute_tool_call_unparsable [OF assms e] e show ?thesis
    by simp
qed


text \<open>
  A call of \<^verbatim>\<open>read_file\<close> whose argument text is cut off: the executor is called with
  the empty path and the loop goes on.
\<close>

definition broken_calls :: tool_calls where
  "broken_calls =
     [(0, \<lparr>call_id = Some ''call_a'', call_name = Some ''read_file'', call_args = ''{pa''\<rparr>)]"

theorem unparsable_arguments_degrade_witness:
  "json_loads sample_env (call_args (dict_get broken_calls 0)) = None
   \<and> fst (execute_tool_call sample_env (dict_get broken_calls 0) sample_state) = None
   \<and> executor_calls (history (snd (execute_tool_call sample_env (dict_get broken_calls 0) sample_state)))
       = [(''read_file'', [JString []])]
   \<and> messages (snd (execute_tool_call sample_env (dict_get broken_calls 0) sample_state))
       = messages sample_state @ [ToolMessage (Some ''call_a'') (''Error: File '' @ quoted [] @ '' not found.'')]
   \<and> run_tool_calls sample_env broken_calls [0] sample_state
       = (None, snd (execute_tool_call sample_env (dict_get broken_calls 0) sample_state))"
proof -
  have h: "json_loads sample_env (call_args (dict_get broken_calls 0)) = None"
    by (simp add: sample_env_def broken_calls_def dict_get_def read_args_def search_args_def)
  have m: "messages (snd (execute_tool_call sample_env (dict_get broken_calls 0) sample_state))
       = messages sample_state @ [ToolMessage (Some ''call_a'') (''Error: File '' @ quoted [] @ '' not found.'')]"
    by (simp add: execute_tool_call_def sample_env_def broken_calls_def dict_get_def
        read_args_def search_args_def args_get_def call_read_file_def Let_def
        read_file_def path_exists_def resolve_def sample_state_def)
  from unparsable_arguments_degrade [OF h, of sample_state "[]"] h m show ?thesis
    by (simp add: default_call_def broken_calls_def dict_get_def sample_state_def)
qed

definition number_env :: env where
  "number_env = sample_env
     \<lparr>completions_create :=
        (\<lambda>t ms tools.
           Inr [\<lparr>delta_content = None,
                 delta_tool_calls = Some [frag 0 (Some ''call_a'') (Some ''read_file'') (Some ''5'')]\<rparr>])\<rparr>"

text \<open>
  C7. The code does not degrade an argument text that parses, but not to a dictionary.
  For the text \<^verbatim>\<open>5\<close>, \<^verbatim>\<open>json.loads\<close> returns a number and raises nothing, so the
  arguments are not replaced by the empty record; \<^verbatim>\<open>args.get\<close> then raises
  \<^verbatim>\<open>AttributeError\<close> outside any handler: no executor is called, no tool message is
  appended and \<^verbatim>\<open>handle_message\<close> ends with the exception instead of continuing.
\<close>

theorem number_arguments_abort_the_turn:
  "json_loads number_env ''5'' = Some (JNumber ''5'')
   \<and> fst (handle_message number_env ''read my notes'' None sample_state) = Some AttributeError
   \<and> executor_calls (history (snd (handle_message number_env ''read my notes'' None sample_state))) = []
   \<and> messages (snd (handle_message number_env ''read my notes'' None sample_state))
       = messages sample_state
         @ [UserMessage ''read my notes'',
            AssistantToolCalls None
              [\<lparr>tcr_id = Some ''call_a'', tcr_name = Some ''read_file'', tcr_arguments = ''5''\<rparr>]]"
  by (simp add: handle_message_def numeral_eq_Suc turn_def number_env_def sample_env_def
      read_args_def search_args_def frag_def consume_stream_def stream_chunk_def
      aggregate_fragment_def request_of_def sorted_keys_def dict_get_def execute_tool_call_def
      args_get_def allowed_tools_of_def TOOL_DEFINITIONS_def sample_state_def Let_def)

definition two_calls_env :: env where
  "two_calls_env = sample_env
     \<lparr>completions_create :=
        (\<lambda>t ms tools.
           Inr [\<lparr>delta_content = None,
                 delta_tool_calls =
                   Some [frag 0 (Some ''call_a'') (Some ''read_file'') (Some ''5''),
                         frag 1 (Some ''call_b'') (Some ''web_search'') (Some search_args)]\<rparr>])\<rparr>"

text \<open>
  C5. The code does not run the calls of every round that accumulated tool calls. In a
  round with a file read at index 0, whose argument text is \<^verbatim>\<open>5\<close>, and a search at index
  1, the assistant message lists both calls, the first call raises \<^verbatim>\<open>AttributeError\<close>
  before its start event, and the round ends there: no executor is called, no event of
  either call is sent and no tool message is appended.
\<close>

theorem round_with_number_arguments_runs_no_call:
  "json_loads two_calls_env ''5'' = Some (JNumber ''5'')
   \<and> fst (turn two_calls_env TOOL_DEFINITIONS sample_state) = Raise AttributeError
   \<and> messages (snd (turn two_calls_env TOOL_DEFINITIONS sample_state))
       = messages sample_state
         @ [AssistantToolCalls None
              [\<lparr>tcr_id = Some ''call_a'', tcr_name = Some ''read_file'', tcr_arguments = ''5''\<rparr>,
               \<lparr>tcr_id = Some ''call_b'', tcr_name = Some ''web_search'', tcr_arguments = search_args\<rparr>]]
   \<and> executor_calls (history (snd (turn two_calls_env TOOL_DEFINITIONS sample_state))) = []
   \<and> history (snd (turn two_calls_env TOOL_DEFINITIONS sample_state))
       = [Requested (messages sample_state) (Some TOOL_DEFINITIONS),
          Appended (AssistantToolCalls None
              [\<lparr>tcr_id = Some ''call_a'', tcr_name = Some ''read_file'', tcr_arguments = ''5''\<rparr>,
               \<lparr>tcr_id = Some ''call_b'', tcr_name = Some ''web_search'', tcr_arguments = search_args\<rparr>])]
   \<and> fst (handle_message two_calls_env ''and search'' None sample_state) = Some AttributeError"
  by code_simp

section \<open>Chat mode\<close>

lemma allowed_tools_chat:
  "allowed_tools_of ''chat'' =
     [\<lparr>td_name = ''read_file'',
       td_description = ''Read the contents of a file.'',
       td_properties = [(''path'', ''string'', None)],
       td_required = [''path'']\<rparr>,
      \<lparr>td_name = ''web_search'',
       td_description = ''Search the web for documentation, solutions, or libraries.'',
       td_properties = [(''query'', ''string'', Some ''The search query.'')],
       td_required = [''query'']\<rparr>]"
  by (simp add: allowed_tools_of_def TOOL_DEFINITIONS_def)

lemma tool_names_chat: "map td_name (allowed_tools_of ''chat'') = [''read_file'', ''web_search'']"
  by (simp add: allowed_tools_chat)

text \<open>
  The model names only tools it was given: every tool-call fragment of every stream is
  without a name or carries the name of one of the \<^verbatim>\<open>tools\<close> of its request.
\<close>

definition names_given_tools :: "env \<Rightarrow> bool" where
  "names_given_tools env =
     (\<forall>t ms tools stream.
        completions_create env t ms tools = Inr stream \<longrightarrow>
        fn_name ` set (stream_fragments stream)
          \<subseteq> insert None (Some ` td_name ` set (case tools of Some ts \<Rightarrow> ts | None \<Rightarrow> [])))"

lemma list_all_executed:
  "list_all (turn_effect m N) es \<Longrightarrow> Some ` set (executed es) \<subseteq> N"
proof (induction es)
  case Nil
  then show ?case by simp
next
  case (Cons x es)
  then show ?case
    by (cases x) (auto simp: turn_effect_def round_effect_def)
qed

lemma list_all_requests:
  "list_all (turn_effect m N) es \<Longrightarrow>
     \<forall>(ms, tools) \<in> set (completion_requests es). tools = tools_param (allowed_tools_of m)"
proof (induction es)
  case Nil
  then show ?case by simp
next
  case (Cons x es)
  then show ?case
    by (cases x) (auto simp: turn_effect_def round_effect_def)
qed

text \<open>
  C2, as the code has it. In a session of mode \<^verbatim>\<open>chat\<close>, every completion request of
  \<^verbatim>\<open>handle_message\<close> is given exactly the two tools \<^verbatim>\<open>read_file\<close> and \<^verbatim>\<open>web_search\<close>; and
  when the model names only tools it was given, neither \<^verbatim>\<open>write_file\<close> nor
  \<^verbatim>\<open>run_terminal_command\<close> is called.
\<close>

theorem chat_mode_tools:
  assumes "mode s = ''chat''"
    and "handle_message env user_content images s = (r, s')"
  shows "map td_name (allowed_tools_of ''chat'') = [''read_file'', ''web_search'']
     \<and> (\<exists>es. history s' = history s @ es
          \<and> completion_requests es \<noteq> []
          \<and> (\<forall>(ms, tools) \<in> set (completion_requests es). tools = Some (allowed_tools_of ''chat''))
          \<and> (names_given_tools env \<longrightarrow>
                ''write_file'' \<notin> set (executed es) \<and> ''run_terminal_command'' \<notin> set (executed es)))"
proof -
  have tp: "tools_param (allowed_tools_of ''chat'') = Some (allowed_tools_of ''chat'')"
    by (simp add: tools_param_def allowed_tools_chat)
  have u: "\<forall>t ms stream. completions_create env t ms (tools_param (allowed_tools_of (mode s))) = Inr stream
            \<longrightarrow> fn_name ` set (stream_fragments stream) \<subseteq> UNIV"
    by simp
  from handle_message_effects [OF assms(2) u] obtain es where es: "history s' = history s @ es"
      "list_all (turn_effect (mode s) UNIV) es"
    by auto
  have req: "\<forall>(ms, tools) \<in> set (completion_requests es). tools = Some (allowed_tools_of ''chat'')"
    using list_all_requests [OF es(2)] assms(1) tp by auto
  have first: "completion_requests es \<noteq> []"
  proof -
    obtain out s1 where t: "turn env (allowed_tools_of ''chat'')
        (case images of
           Some (i # is) \<Rightarrow> append_message (UserParts (TextPart user_content # map ImageUrl (i # is))) s
         | _ \<Rightarrow> append_message (UserMessage user_content) s) = (out, s1)"
      (is "turn env ?al ?s0 = _")
      by (cases "turn env (allowed_tools_of ''chat'')
        (case images of
           Some (i # is) \<Rightarrow> append_message (UserParts (TextPart user_content # map ImageUrl (i # is))) s
         | _ \<Rightarrow> append_message (UserMessage user_content) s)")
    have ms0: "mode ?s0 = ''chat''"
      using assms(1) by (simp split: option.splits list.splits)
    have "\<forall>stream. completions_create env (length (history ?s0)) (messages ?s0) (tools_param ?al) = Inr stream
            \<longrightarrow> fn_name ` set (stream_fragments stream) \<subseteq> UNIV"
      by simp
    from turn_effects [OF t this] obtain es1 where e1:
        "history s1 = history ?s0 @ Requested (messages ?s0) (tools_param ?al) # es1"
      by auto
    obtain r2 s2 where l: "turn_loop 9 env ?al s1 = (r2, s2)"
      by (cases "turn_loop 9 env ?al s1")
    have u9: "\<forall>t ms stream. completions_create env t ms (tools_param ?al) = Inr stream
            \<longrightarrow> fn_name ` set (stream_fragments stream) \<subseteq> UNIV"
      by simp
    from turn_loop_effects [OF l u9] obtain es2 where e2: "history s2 = history s1 @ es2"
      by auto
    have "\<exists>es3. history s' = history s1 @ es3"
    proof (cases out)
      case Continue
      with assms(2) t l ms0 have "s' = s2"
        by (simp add: handle_message_def Let_def numeral_eq_Suc)
      with e2 show ?thesis by blast
    next
      case Break
      with assms(2) t ms0 have "s' = s1"
        by (simp add: handle_message_def Let_def numeral_eq_Suc)
      then show ?thesis by simp
    next
      case Return
      with assms(2) t ms0 have "s' = s1"
        by (simp add: handle_message_def Let_def numeral_eq_Suc)
      then show ?thesis by simp
    next
      case (Raise e)
      with assms(2) t ms0 have "s' = s1"
        by (simp add: handle_message_def Let_def numeral_eq_Suc)
      then show ?thesis by simp
    qed
    then obtain es3 where e3: "history s' = history s1 @ es3" ..
    have "\<exists>a. history ?s0 = history s @ [a]"
      by (simp split: option.splits list.splits)
    then obtain a where a: "history ?s0 = history s @ [a]" ..
    from e3 e1 a es(1) have "es = a # Requested (messages ?s0) (tools_param ?al) # es1 @ es3"
      by simp
    then show ?thesis
      by (cases a) simp_all
  qed
  have ex: "''write_file'' \<notin> set (executed es) \<and> ''run_terminal_command'' \<notin> set (executed es)"
    if g: "names_given_tools env"
  proof -
    let ?N = "insert None (Some ` set [''read_file'', ''web_search''])"
    from g have n: "\<forall>t ms stream. completions_create env t ms (tools_param (allowed_tools_of (mode s))) = Inr stream
            \<longrightarrow> fn_name ` set (stream_fragments stream) \<subseteq> ?N"
      unfolding names_given_tools_def assms(1) tp
      using tool_names_chat by (metis image_set option.simps(5))
    from handle_message_effects [OF assms(2) n] obtain es' where es': "history s' = history s @ es'"
        "list_all (turn_effect (mode s) ?N) es'"
      by auto
    from es(1) es'(1) have "es' = es" by simp
    with list_all_executed [OF es'(2)] show ?thesis
      by auto
  qed
  from es(1) req first ex tool_names_chat show ?thesis
    by blast
qed


text \<open>
  The witness of C2: a chat session with a model that asks for \<^verbatim>\<open>read_file\<close> when it is
  given that tool, and answers in text otherwise.
\<close>

definition polite_env :: env where
  "polite_env = sample_env
     \<lparr>completions_create :=
        (\<lambda>t ms tools.
           if length ms \<le> 2 \<and> ''read_file'' \<in> td_name ` set (case tools of Some ts \<Rightarrow> ts | None \<Rightarrow> [])
           then Inr [\<lparr>delta_content = None,
                      delta_tool_calls = Some [frag 0 (Some ''call_a'') (Some ''read_file'') (Some read_args)]\<rparr>]
           else Inr [\<lparr>delta_content = Some ''Done.'', delta_tool_calls = None\<rparr>])\<rparr>"

definition chat_state :: state where
  "chat_state =
     \<lparr>messages = [SystemMessage (PROMPT_CHAT ''work/'')], mode = ''chat'',
      files = sample_files, history = []\<rparr>"

lemma polite_env_names: "names_given_tools polite_env"
  by (auto simp: names_given_tools_def polite_env_def sample_env_def stream_fragments_def frag_def
      split: if_splits)

theorem chat_mode_tools_witness:
  "mode chat_state = ''chat''
   \<and> names_given_tools polite_env
   \<and> executed (history (snd (handle_message polite_env ''read my notes'' None chat_state)))
       = [''read_file'']
   \<and> map snd (completion_requests (history (snd (handle_message polite_env ''read my notes'' None chat_state))))
       = [Some (allowed_tools_of ''chat''), Some (allowed_tools_of ''chat'')]
   \<and> (\<exists>es. history (snd (handle_message polite_env ''read my notes'' None chat_state))
               = history chat_state @ es
          \<and> completion_requests es \<noteq> []
          \<and> (\<forall>(ms, tools) \<in> set (completion_requests es). tools = Some (allowed_tools_of ''chat''))
          \<and> ''write_file'' \<notin> set (executed es) \<and> ''run_terminal_command'' \<notin> set (executed es))"
proof -
  have m: "mode chat_state = ''chat''"
    by (simp add: chat_state_def)
  have h: "handle_message polite_env ''read my notes'' None chat_state
      = (fst (handle_message polite_env ''read my notes'' None chat_state),
         snd (handle_message polite_env ''read my notes'' None chat_state))"
    by simp
  have e: "executed (history (snd (handle_message polite_env ''read my notes'' None chat_state)))
       = [''read_file'']"
    by code_simp
  have q: "map snd (completion_requests (history (snd (handle_message polite_env ''read my notes'' None chat_state))))
       = [Some (allowed_tools_of ''chat''), Some (allowed_tools_of ''chat'')]"
    by code_simp
  from chat_mode_tools [OF m h] polite_env_names m e q show ?thesis
    by simp
qed

text \<open>
  C2, as stated, fails for a model that names a tool it was not given: the dispatch goes
  by the name in the model's answer and does not look at the allowed tools. In a chat
  session whose requests carry \<^verbatim>\<open>read_file\<close> and \<^verbatim>\<open>web_search\<close> only, \<^verbatim>\<open>write_file\<close> is
  called and the file is written.
\<close>

definition write_args :: string where
  "write_args = ''{'' @ [CHR 0x22] @ ''path'' @ [CHR 0x22] @ '': '' @ [CHR 0x22] @ ''/pwned.txt'' @ [CHR 0x22]
     @ '', '' @ [CHR 0x22] @ ''content'' @ [CHR 0x22] @ '': '' @ [CHR 0x22] @ ''X'' @ [CHR 0x22] @ ''}''"

definition rogue_env :: env where
  "rogue_env = sample_env
     \<lparr>completions_create :=
        (\<lambda>t ms tools.
           if length ms \<le> 2
           then Inr [\<lparr>delta_content = None,
                      delta_tool_calls = Some [frag 0 (Some ''call_w'') (Some ''write_file'') (Some write_args)]\<rparr>]
           else Inr [\<lparr>delta_content = Some ''Done.'', delta_tool_calls = None\<rparr>]),
      json_loads :=
        (\<lambda>text. if text = write_args
                 then Some (JObject [(''path'', JString ''/pwned.txt''), (''content'', JString ''X'')])
                 else None)\<rparr>"

theorem chat_mode_dispatch_counterexample:
  "mode chat_state = ''chat''
   \<and> map snd (completion_requests (history (snd (handle_message rogue_env ''hello'' None chat_state))))
       = [Some (allowed_tools_of ''chat''), Some (allowed_tools_of ''chat'')]
   \<and> map td_name (allowed_tools_of ''chat'') = [''read_file'', ''web_search'']
   \<and> executor_calls (history (snd (handle_message rogue_env ''hello'' None chat_state)))
       = [(''write_file'', [JString ''/pwned.txt'', JString ''X''])]
   \<and> \<not> path_exists (files chat_state) ''/pwned.txt''
   \<and> read_file (files (snd (handle_message rogue_env ''hello'' None chat_state))) ''/pwned.txt'' = ''X''"
  by code_simp

section \<open>The connection and its initialization\<close>

text \<open>
  The effects of initialization: the session-started thought (a thought without id whose
  text begins with \<^verbatim>\<open>Session started in\<close>), the assignment of the transcript; and the
  system message.
\<close>

definition session_started :: "effect \<Rightarrow> bool" where
  "session_started x =
     (case x of Sent (Thought None t) \<Rightarrow> take 19 t = ''Session started in '' | _ \<Rightarrow> False)"

definition is_assignment :: "effect \<Rightarrow> bool" where
  "is_assignment x = (case x of Assigned _ \<Rightarrow> True | _ \<Rightarrow> False)"

definition is_system :: "message \<Rightarrow> bool" where
  "is_system m = (case m of SystemMessage _ \<Rightarrow> True | _ \<Rightarrow> False)"

text \<open>What a frame may do in a session of mode \<open>m\<close> that is initialized.\<close>

definition connection_effect :: "string \<Rightarrow> effect \<Rightarrow> bool" where
  "connection_effect m x = (turn_effect m UNIV x \<or> (\<exists>p t. x = Sent (FileContent p t)))"

lemma llm_error_not_started:
  "take 11 t = ''LLM Error: '' \<Longrightarrow> take 19 t \<noteq> ''Session started in ''"
  by (cases t) auto

lemma connection_effect_later:
  assumes "connection_effect m x"
  shows "\<not> session_started x \<and> \<not> is_assignment x
     \<and> filter is_system (appended [x]) = []
     \<and> (\<forall>(ms, tools) \<in> set (completion_requests [x]). tools = tools_param (allowed_tools_of m))"
proof (cases x)
  case (Sent e)
  with assms show ?thesis
    by (cases e)
      (auto simp: connection_effect_def turn_effect_def round_effect_def session_started_def
        is_assignment_def llm_error_not_started split: option.splits)
next
  case (Appended msg)
  with assms show ?thesis
    by (cases msg)
      (auto simp: connection_effect_def turn_effect_def round_effect_def session_started_def
        is_assignment_def is_system_def)
next
  case (Assigned tr)
  with assms show ?thesis
    by (auto simp: connection_effect_def turn_effect_def round_effect_def)
next
  case (Requested ms ts)
  with assms show ?thesis
    by (auto simp: connection_effect_def turn_effect_def round_effect_def session_started_def
        is_assignment_def)
next
  case (Executed n a)
  with assms show ?thesis
    by (auto simp: session_started_def is_assignment_def)
qed

lemma connection_effects_later:
  "list_all (connection_effect m) es \<Longrightarrow>
     filter session_started es = [] \<and> filter is_assignment es = []
     \<and> filter is_system (appended es) = []
     \<and> (\<forall>(ms, tools) \<in> set (completion_requests es). tools = tools_param (allowed_tools_of m))"
proof (induction es)
  case Nil
  then show ?case by simp
next
  case (Cons x es)
  from Cons.prems have x: "connection_effect m x" and es: "list_all (connection_effect m) es"
    by simp_all
  note l = connection_effect_later [OF x]
  have ap: "appended (x # es) = appended [x] @ appended es"
    using appended_append [of "[x]" es] by simp
  have cr: "completion_requests (x # es) = completion_requests [x] @ completion_requests es"
    using completion_requests_append [of "[x]" es] by simp
  show ?case
    unfolding ap cr using l Cons.IH [OF es] by auto
qed

text \<open>The step for a file-viewer request, whatever the state of the connection.\<close>

lemma websocket_step_file_content:
  assumes "p_type p = Some ''get_file_content''"
  shows "\<exists>a t fs'. websocket_step env p c =
     (None, c\<lparr>session := (session c)\<lparr>history := history (session c)
        @ [Executed ''read_file'' [a], Sent (FileContent (p_path p) t)], files := fs'\<rparr>\<rparr>)"
proof (cases "p_path p")
  case None
  obtain out fs' where u: "untyped_call env (length (history (session c))) ''read_file'' [JNull]
      (files (session c)) = (out, fs')"
    by (cases "untyped_call env (length (history (session c))) ''read_file'' [JNull] (files (session c))")
  show ?thesis
    using assms None u
    by (intro exI [of _ JNull] exI [of _ out] exI [of _ fs'])
      (simp add: websocket_step_def call_read_file_def Let_def send_json_def)
next
  case (Some path)
  show ?thesis
    using assms Some
    by (intro exI [of _ "JString path"] exI [of _ "read_file (files (session c)) path"]
        exI [of _ "files (session c)"])
      (simp add: websocket_step_def call_read_file_def Let_def send_json_def)
qed


lemma file_content_effects:
  "list_all (connection_effect m) [Executed ''read_file'' [a], Sent (FileContent p t)]"
  by (simp add: connection_effect_def turn_effect_def round_effect_def)

lemma handle_message_connection_effects:
  assumes "handle_message env user_content images s = (r, s')"
  shows "mode s' = mode s \<and>
     (\<exists>es. history s' = history s @ es \<and> list_all (connection_effect (mode s)) es
        \<and> messages s' = messages s @ appended es)"
proof -
  have "\<forall>t ms stream. completions_create env t ms (tools_param (allowed_tools_of (mode s))) = Inr stream
            \<longrightarrow> fn_name ` set (stream_fragments stream) \<subseteq> UNIV"
    by simp
  from handle_message_effects [OF assms this] obtain es where es: "mode s' = mode s"
      "history s' = history s @ es" "list_all (turn_effect (mode s) UNIV) es"
      "messages s' = messages s @ appended es"
    by auto
  from es(3) have "list_all (connection_effect (mode s)) es"
    by (simp add: list_all_iff connection_effect_def)
  with es show ?thesis by blast
qed

lemma websocket_step_initialized:
  assumes "initialized c" and "websocket_step env p c = (r, c')"
  shows "initialized c' \<and> mode (session c') = mode (session c) \<and>
     (\<exists>es. history (session c') = history (session c) @ es
        \<and> list_all (connection_effect (mode (session c))) es
        \<and> messages (session c') = messages (session c) @ appended es)"
proof (cases "p_type p = Some ''get_file_content''")
  case True
  from websocket_step_file_content [OF True, of env c] assms show ?thesis
    using file_content_effects by (auto intro!: exI [of _ "[Executed ''read_file'' [_], Sent (FileContent _ _)]"])
next
  case False
  show ?thesis
  proof (cases "p_type p = Some ''user_message''")
    case True
    obtain r2 s2 where h: "handle_message env (case p_content p of Some t \<Rightarrow> t | None \<Rightarrow> [])
        (Some (case p_images p of Some is \<Rightarrow> is | None \<Rightarrow> [])) (session c) = (r2, s2)"
      by (cases "handle_message env (case p_content p of Some t \<Rightarrow> t | None \<Rightarrow> [])
        (Some (case p_images p of Some is \<Rightarrow> is | None \<Rightarrow> [])) (session c)")
    from assms True False h have "c' = c\<lparr>session := s2\<rparr>"
      by (simp add: websocket_step_def Let_def)
    with handle_message_connection_effects [OF h] assms(1) show ?thesis
      by simp
  next
    case False
    with assms \<open>p_type p \<noteq> Some ''get_file_content''\<close> have "c' = c"
      by (simp add: websocket_step_def Let_def)
    with assms(1) show ?thesis by simp
  qed
qed

lemma websocket_loop_initialized:
  assumes "initialized c"
  shows "initialized (websocket_loop env frames c)
     \<and> mode (session (websocket_loop env frames c)) = mode (session c)
     \<and> (\<exists>es. history (session (websocket_loop env frames c)) = history (session c) @ es
          \<and> list_all (connection_effect (mode (session c))) es
          \<and> messages (session (websocket_loop env frames c)) = messages (session c) @ appended es)"
  using assms
proof (induction frames arbitrary: c)
  case Nil
  then show ?case by simp
next
  case (Cons p frames)
  obtain r c1 where st: "websocket_step env p c = (r, c1)"
    by (cases "websocket_step env p c")
  from websocket_step_initialized [OF Cons.prems st] obtain es1 where s1: "initialized c1"
      "mode (session c1) = mode (session c)"
      "history (session c1) = history (session c) @ es1"
      "list_all (connection_effect (mode (session c))) es1"
      "messages (session c1) = messages (session c) @ appended es1"
    by auto
  show ?case
  proof (cases r)
    case (Some e)
    with st have "websocket_loop env (p # frames) c = c1" by simp
    with s1 show ?thesis by auto
  next
    case None
    with st have l: "websocket_loop env (p # frames) c = websocket_loop env frames c1" by simp
    from Cons.IH [OF s1(1)] obtain es2 where s2: "initialized (websocket_loop env frames c1)"
        "mode (session (websocket_loop env frames c1)) = mode (session c1)"
        "history (session (websocket_loop env frames c1)) = history (session c1) @ es2"
        "list_all (connection_effect (mode (session c1))) es2"
        "messages (session (websocket_loop env frames c1)) = messages (session c1) @ appended es2"
      by auto
    show ?thesis
      unfolding l using s1 s2 by (auto intro!: exI [of _ "es1 @ es2"])
  qed
qed

text \<open>The step that initializes the session.\<close>

lemma websocket_step_initialize:
  assumes "\<not> initialized c" and "p_type p \<noteq> Some ''get_file_content''"
    and "websocket_step env p c = (r, c')"
  shows "initialized c'
     \<and> mode (session c') = (case p_mode p of Some m \<Rightarrow> m | None \<Rightarrow> ''agent'')
     \<and> (\<exists>tr t sys es. history (session c')
            = history (session c) @ Assigned tr # Sent (Thought None (''Session started in '' @ t)) # es
          \<and> list_all (connection_effect (mode (session c'))) es
          \<and> messages (session c') = SystemMessage sys # appended es)"
proof -
  let ?m = "case p_mode p of Some m \<Rightarrow> m | None \<Rightarrow> ''agent''"
  let ?s1 = "initialize env ?m (session c)"
  have i: "mode ?s1 = ?m"
      "\<exists>tr t sys. history ?s1 = history (session c) @ [Assigned tr, Sent (Thought None (''Session started in '' @ t))]
          \<and> messages ?s1 = [SystemMessage sys]"
    by (simp_all add: initialize_def Let_def)
  then obtain tr t sys where i2: "history ?s1 = history (session c) @ [Assigned tr, Sent (Thought None (''Session started in '' @ t))]"
      "messages ?s1 = [SystemMessage sys]"
    by blast
  show ?thesis
  proof (cases "truthy (p_content p) \<or> (case p_images p of Some (i # is) \<Rightarrow> True | _ \<Rightarrow> False)")
    case True
    obtain r2 s2 where h: "handle_message env (case p_content p of Some t \<Rightarrow> t | None \<Rightarrow> [])
        (Some (case p_images p of Some is \<Rightarrow> is | None \<Rightarrow> [])) ?s1 = (r2, s2)"
      by (cases "handle_message env (case p_content p of Some t \<Rightarrow> t | None \<Rightarrow> [])
        (Some (case p_images p of Some is \<Rightarrow> is | None \<Rightarrow> [])) ?s1")
    from assms True h have c': "c' = \<lparr>session = s2, initialized = True\<rparr>"
      by (simp add: websocket_step_def Let_def)
    from handle_message_connection_effects [OF h] obtain es where es: "mode s2 = mode ?s1"
        "history s2 = history ?s1 @ es" "list_all (connection_effect (mode ?s1)) es"
        "messages s2 = messages ?s1 @ appended es"
      by auto
    show ?thesis
      unfolding c' using es i(1) i2 by auto
  next
    case False
    with assms have c': "c' = \<lparr>session = ?s1, initialized = True\<rparr>"
      by (simp add: websocket_step_def Let_def)
    show ?thesis
      unfolding c' using i(1) i2 by auto
  qed
qed


lemma session_started_thought [simp]:
  "session_started (Sent (Thought None (''Session started in '' @ t)))"
  by (simp add: session_started_def)

lemma not_started_simps [simp]:
  "\<not> session_started (Assigned tr)" "\<not> session_started (Executed n a)"
  "\<not> session_started (Sent (FileContent p t))"
  by (simp_all add: session_started_def)

lemma websocket_loop_uninitialized:
  assumes "\<not> initialized c"
    and "filter session_started (history (session c)) = []"
    and "filter is_system (messages (session c)) = []"
  shows "length (filter session_started (history (session (websocket_loop env frames c)))) \<le> 1
     \<and> length (filter is_system (messages (session (websocket_loop env frames c)))) \<le> 1"
  using assms
proof (induction frames arbitrary: c)
  case Nil
  then show ?case by simp
next
  case (Cons p frames)
  show ?case
  proof (cases "p_type p = Some ''get_file_content''")
    case True
    from websocket_step_file_content [OF True, of env c] obtain a t fs' where
      st: "websocket_step env p c =
        (None, c\<lparr>session := (session c)\<lparr>history := history (session c)
          @ [Executed ''read_file'' [a], Sent (FileContent (p_path p) t)], files := fs'\<rparr>\<rparr>)"
      (is "_ = (None, ?c1)")
      by blast
    have "\<not> initialized ?c1" "filter session_started (history (session ?c1)) = []"
        "filter is_system (messages (session ?c1)) = []"
      using Cons.prems by simp_all
    from Cons.IH [OF this] st show ?thesis by simp
  next
    case False
    obtain r c1 where st: "websocket_step env p c = (r, c1)"
      by (cases "websocket_step env p c")
    from websocket_step_initialize [OF Cons.prems(1) False st] obtain tr t sys es where i:
        "initialized c1"
        "history (session c1)
            = history (session c) @ Assigned tr # Sent (Thought None (''Session started in '' @ t)) # es"
        "list_all (connection_effect (mode (session c1))) es"
        "messages (session c1) = SystemMessage sys # appended es"
      by auto
    note l1 = connection_effects_later [OF i(3)]
    from websocket_loop_initialized [OF i(1), of env frames] obtain es2 where j:
        "history (session (websocket_loop env frames c1)) = history (session c1) @ es2"
        "list_all (connection_effect (mode (session c1))) es2"
        "messages (session (websocket_loop env frames c1)) = messages (session c1) @ appended es2"
      by auto
    note l2 = connection_effects_later [OF j(2)]
    have c1: "length (filter session_started (history (session c1))) \<le> 1
        \<and> length (filter is_system (messages (session c1))) \<le> 1"
      using i l1 Cons.prems by (simp add: is_system_def)
    have c2: "length (filter session_started (history (session (websocket_loop env frames c1)))) \<le> 1
        \<and> length (filter is_system (messages (session (websocket_loop env frames c1)))) \<le> 1"
      using i j l1 l2 Cons.prems by (simp add: is_system_def)
    show ?thesis
      using st c1 c2 by (cases r) simp_all
  qed
qed

text \<open>
  C6. Once the connection is initialized, no later frame initializes it again, whatever
  it carries: the connection stays initialized, the mode stays, the transcript only grows
  and gets no system message, the transcript is not assigned and no session-started
  thought is sent. From the opening of a connection to its end, at most one
  session-started thought is sent and the transcript holds at most one system message.
\<close>

theorem second_initialization_is_ignored:
  assumes "initialized c"
  shows "initialized (websocket_loop env frames c)
     \<and> mode (session (websocket_loop env frames c)) = mode (session c)
     \<and> (\<exists>es. history (session (websocket_loop env frames c)) = history (session c) @ es
          \<and> filter session_started es = [] \<and> filter is_assignment es = []
          \<and> messages (session (websocket_loop env frames c)) = messages (session c) @ appended es
          \<and> filter is_system (appended es) = [])
     \<and> length (filter session_started (history (session (websocket_endpoint env fs all_frames)))) \<le> 1
     \<and> length (filter is_system (messages (session (websocket_endpoint env fs all_frames)))) \<le> 1"
proof -
  from websocket_loop_initialized [OF assms, of env frames] obtain es where e:
      "initialized (websocket_loop env frames c)"
      "mode (session (websocket_loop env frames c)) = mode (session c)"
      "history (session (websocket_loop env frames c)) = history (session c) @ es"
      "list_all (connection_effect (mode (session c))) es"
      "messages (session (websocket_loop env frames c)) = messages (session c) @ appended es"
    by auto
  note l = connection_effects_later [OF e(4)]
  have "\<exists>es. history (session (websocket_loop env frames c)) = history (session c) @ es
          \<and> filter session_started es = [] \<and> filter is_assignment es = []
          \<and> messages (session (websocket_loop env frames c)) = messages (session c) @ appended es
          \<and> filter is_system (appended es) = []"
    using e l by blast
  moreover have "length (filter session_started (history (session (websocket_endpoint env fs all_frames)))) \<le> 1
     \<and> length (filter is_system (messages (session (websocket_endpoint env fs all_frames)))) \<le> 1"
    unfolding websocket_endpoint_def by (rule websocket_loop_uninitialized) simp_all
  ultimately show ?thesis
    using e(1,2) by blast
qed

lemma websocket_loop_file_content:
  assumes "\<forall>g \<in> set gs. p_type g = Some ''get_file_content''" and "\<not> initialized c"
  shows "\<exists>c1. websocket_loop env (gs @ frames) c = websocket_loop env frames c1
     \<and> \<not> initialized c1
     \<and> completion_requests (history (session c1)) = completion_requests (history (session c))"
  using assms
proof (induction gs arbitrary: c)
  case Nil
  then show ?case by auto
next
  case (Cons g gs)
  then have g: "p_type g = Some ''get_file_content''" by simp
  from websocket_step_file_content [OF g, of env c] obtain a t fs' where
      st: "websocket_step env g c =
        (None, c\<lparr>session := (session c)\<lparr>history := history (session c)
          @ [Executed ''read_file'' [a], Sent (FileContent (p_path g) t)], files := fs'\<rparr>\<rparr>)"
      (is "_ = (None, ?c1)")
    by blast
  have n: "\<not> initialized ?c1"
    using Cons.prems by simp
  from Cons.prems have "\<forall>g \<in> set gs. p_type g = Some ''get_file_content''" by simp
  from Cons.IH [OF this n] obtain c2 where
      "websocket_loop env (gs @ frames) ?c1 = websocket_loop env frames c2"
      "\<not> initialized c2"
      "completion_requests (history (session c2)) = completion_requests (history (session ?c1))"
    by blast
  with st show ?case
    by (intro exI [of _ c2]) simp
qed

lemma tools_param_agent: "tools_param (allowed_tools_of ''agent'') = Some TOOL_DEFINITIONS"
  by (simp add: tools_param_def allowed_tools_of_def TOOL_DEFINITIONS_def)

text \<open>
  C9, as the code has it. When the first frame of a connection that is not a file-viewer
  request (\<^verbatim>\<open>get_file_content\<close>) has no \<^verbatim>\<open>mode\<close>, the session is initialized in mode
  \<^verbatim>\<open>agent\<close>, and every completion request of the connection is given the four tools.
\<close>

theorem default_mode_is_agent:
  assumes "\<forall>g \<in> set gs. p_type g = Some ''get_file_content''"
    and "p_type p \<noteq> Some ''get_file_content''"
    and "p_mode p = None"
  shows "initialized (websocket_endpoint env fs (gs @ p # rest))
     \<and> mode (session (websocket_endpoint env fs (gs @ p # rest))) = ''agent''
     \<and> map td_name TOOL_DEFINITIONS = [''read_file'', ''write_file'', ''run_terminal_command'', ''web_search'']
     \<and> (\<forall>(ms, tools) \<in> set (completion_requests
            (history (session (websocket_endpoint env fs (gs @ p # rest))))).
          tools = Some TOOL_DEFINITIONS)"
proof -
  let ?c0 = "\<lparr>session = \<lparr>messages = [], mode = ''agent'', files = fs, history = []\<rparr>, initialized = False\<rparr>"
  have "\<not> initialized ?c0" by simp
  from websocket_loop_file_content [OF assms(1) this, of env "p # rest"] obtain c1 where c1:
      "websocket_loop env (gs @ p # rest) ?c0 = websocket_loop env (p # rest) c1"
      "\<not> initialized c1" "completion_requests (history (session c1)) = []"
    by auto
  obtain r c2 where st: "websocket_step env p c1 = (r, c2)"
    by (cases "websocket_step env p c1")
  from websocket_step_initialize [OF c1(2) assms(2) st] assms(3) obtain tr t sys es where i:
      "initialized c2" "mode (session c2) = ''agent''"
      "history (session c2)
          = history (session c1) @ Assigned tr # Sent (Thought None (''Session started in '' @ t)) # es"
      "list_all (connection_effect (mode (session c2))) es"
    by auto
  note l1 = connection_effects_later [OF i(4)]
  from websocket_loop_initialized [OF i(1), of env rest] obtain es2 where j:
      "initialized (websocket_loop env rest c2)"
      "mode (session (websocket_loop env rest c2)) = mode (session c2)"
      "history (session (websocket_loop env rest c2)) = history (session c2) @ es2"
      "list_all (connection_effect (mode (session c2))) es2"
    by auto
  note l2 = connection_effects_later [OF j(4)]
  have n: "map td_name TOOL_DEFINITIONS = [''read_file'', ''write_file'', ''run_terminal_command'', ''web_search'']"
    by (simp add: TOOL_DEFINITIONS_def)
  have a: "initialized c2 \<and> mode (session c2) = ''agent''
     \<and> (\<forall>(ms, tools) \<in> set (completion_requests (history (session c2))). tools = Some TOOL_DEFINITIONS)"
    using i l1 c1(3) by (auto simp: tools_param_agent)
  have b: "initialized (websocket_loop env rest c2) \<and> mode (session (websocket_loop env rest c2)) = ''agent''
     \<and> (\<forall>(ms, tools) \<in> set (completion_requests (history (session (websocket_loop env rest c2)))).
          tools = Some TOOL_DEFINITIONS)"
    using i j l1 l2 c1(3) by (auto simp: tools_param_agent)
  have "websocket_endpoint env fs (gs @ p # rest) = (case r of Some e \<Rightarrow> c2 | None \<Rightarrow> websocket_loop env rest c2)"
    unfolding websocket_endpoint_def c1(1) using st by (simp split: option.splits)
  with a b n show ?thesis
    by (cases r) simp_all
qed

text \<open>
  Frames of a sample connection: a file-viewer request, a first message without mode, a
  first message in chat mode, a later attempt to initialize in agent mode, and a user
  message.
\<close>

definition viewer_frame :: payload where
  "viewer_frame = \<lparr>p_type = Some ''get_file_content'', p_mode = None, p_path = Some ''notes.txt'',
                    p_content = None, p_images = None\<rparr>"

definition plain_frame :: payload where
  "plain_frame = \<lparr>p_type = None, p_mode = None, p_path = None,
                   p_content = Some ''read my notes'', p_images = None\<rparr>"

definition chat_frame :: payload where
  "chat_frame = \<lparr>p_type = None, p_mode = Some ''chat'', p_path = None,
                  p_content = Some ''read my notes'', p_images = None\<rparr>"

definition agent_frame :: payload where
  "agent_frame = \<lparr>p_type = None, p_mode = Some ''agent'', p_path = None,
                   p_content = Some ''now write'', p_images = None\<rparr>"

definition user_frame :: payload where
  "user_frame = \<lparr>p_type = Some ''user_message'', p_mode = Some ''agent'', p_path = None,
                  p_content = Some ''thanks'', p_images = Some []\<rparr>"

text \<open>
  The witness of C6: a chat session that is initialized receives a frame asking for agent
  mode and a user message carrying a mode. The mode stays \<^verbatim>\<open>chat\<close>; the whole connection
  sends one session-started thought and holds one system message.
\<close>

theorem second_initialization_is_ignored_witness:
  "initialized \<lparr>session = chat_state, initialized = True\<rparr>
   \<and> initialized (websocket_loop polite_env [agent_frame, user_frame]
                    \<lparr>session = chat_state, initialized = True\<rparr>)
   \<and> mode (session (websocket_loop polite_env [agent_frame, user_frame]
                      \<lparr>session = chat_state, initialized = True\<rparr>)) = ''chat''
   \<and> (\<exists>es. history (session (websocket_loop polite_env [agent_frame, user_frame]
                                \<lparr>session = chat_state, initialized = True\<rparr>))
               = history chat_state @ es
          \<and> filter session_started es = [] \<and> filter is_assignment es = []
          \<and> messages (session (websocket_loop polite_env [agent_frame, user_frame]
                                  \<lparr>session = chat_state, initialized = True\<rparr>))
               = messages chat_state @ appended es
          \<and> filter is_system (appended es) = [])
   \<and> filter session_started
        (history (session (websocket_endpoint polite_env sample_files [chat_frame, agent_frame, user_frame])))
       = [Sent (Thought None (''Session started in chat mode. I'' @ [CHR 0x27] @ ''m ready.''))]
   \<and> length (filter is_system
        (messages (session (websocket_endpoint polite_env sample_files [chat_frame, agent_frame, user_frame]))))
       = 1"
proof -
  have i: "initialized \<lparr>session = chat_state, initialized = True\<rparr>"
    by simp
  have m: "mode chat_state = ''chat''"
    by (simp add: chat_state_def)
  have a: "filter session_started
        (history (session (websocket_endpoint polite_env sample_files [chat_frame, agent_frame, user_frame])))
       = [Sent (Thought None (''Session started in chat mode. I'' @ [CHR 0x27] @ ''m ready.''))]"
    by code_simp
  have b: "length (filter is_system
        (messages (session (websocket_endpoint polite_env sample_files [chat_frame, agent_frame, user_frame]))))
       = 1"
    by code_simp
  from second_initialization_is_ignored [OF i, of polite_env "[agent_frame, user_frame]" sample_files
      "[chat_frame, agent_frame, user_frame]"] m a b
  show ?thesis
    by simp
qed

text \<open>
  The witness of C9: after a file-viewer request, a first message without mode; the
  three completion requests of the connection are given the four tools.
\<close>

theorem default_mode_is_agent_witness:
  "p_type viewer_frame = Some ''get_file_content''
   \<and> p_type plain_frame \<noteq> Some ''get_file_content''
   \<and> p_mode plain_frame = None
   \<and> initialized (websocket_endpoint polite_env sample_files [viewer_frame, plain_frame, user_frame])
   \<and> mode (session (websocket_endpoint polite_env sample_files [viewer_frame, plain_frame, user_frame]))
       = ''agent''
   \<and> length (completion_requests
        (history (session (websocket_endpoint polite_env sample_files [viewer_frame, plain_frame, user_frame]))))
       = 3
   \<and> list_all (\<lambda>(ms, tools). tools = Some TOOL_DEFINITIONS)
        (completion_requests
          (history (session (websocket_endpoint polite_env sample_files [viewer_frame, plain_frame, user_frame]))))"
proof -
  have g: "\<forall>g \<in> set [viewer_frame]. p_type g = Some ''get_file_content''"
    by (simp add: viewer_frame_def)
  have p: "p_type plain_frame \<noteq> Some ''get_file_content''" "p_mode plain_frame = None"
    by (simp_all add: plain_frame_def)
  have n: "length (completion_requests
        (history (session (websocket_endpoint polite_env sample_files [viewer_frame, plain_frame, user_frame]))))
       = 3"
    by code_simp
  from default_mode_is_agent [OF g p, of polite_env sample_files "[user_frame]"] g p n
  show ?thesis
    by (simp add: list_all_iff)
qed

text \<open>
  C9, as stated, fails when the first frame of the connection is a file-viewer request:
  it has no \<^verbatim>\<open>mode\<close> field and does not initialize the session, and the next frame
  initializes it in chat mode, so that the requests are given two tools.
\<close>

theorem first_frame_file_viewer_counterexample:
  "p_mode (hd [viewer_frame, chat_frame]) = None
   \<and> initialized (websocket_endpoint polite_env sample_files [viewer_frame, chat_frame])
   \<and> mode (session (websocket_endpoint polite_env sample_files [viewer_frame, chat_frame])) = ''chat''
   \<and> map (map_option (map td_name) \<circ> snd)
        (completion_requests
          (history (session (websocket_endpoint polite_env sample_files [viewer_frame, chat_frame]))))
       = [Some [''read_file'', ''web_search''], Some [''read_file'', ''web_search'']]"
  by code_simp

end
